theory Spec2Isabelle
  imports Complex_Main "HOL-Library.Log_Nat"
begin

section \<open>Numbers\<close>

text \<open>
  The program is TypeScript: every \<open>number\<close> is an IEEE double. The development reads
  a \<open>number\<close> as a rational (\<open>rat\<close>), pixel counts and indices as \<open>nat\<close>, and the
  elements of a \<open>Uint8ClampedArray\<close> as naturals that are at most 255. The places where the
  double arithmetic leaves the rationals (a division by zero) are written out where they occur,
  and so is the rounding of a double operation (\<open>roundToDouble\<close>) where a statement
  depends on the value it yields.
\<close>

type_synonym number = rat

text \<open>\<open>Math.round\<close>: the nearest integer, a tie going up.\<close>

definition Math_round :: "number \<Rightarrow> int" where
  "Math_round v = \<lfloor>v + 1 / 2\<rfloor>"

text \<open>
  Storing a finite number into a \<open>Uint8ClampedArray\<close>: clamped to \<open>[0, 255]\<close>, then
  rounded to the nearest integer, a tie going to the even neighbour.
\<close>

definition toUint8Clamped :: "number \<Rightarrow> nat" where
  "toUint8Clamped v =
     (if v \<le> 0 then 0
      else if 255 \<le> v then 255
      else let f = \<lfloor>v\<rfloor>; d = v - of_int f
           in nat (if d < 1 / 2 then f
                   else if 1 / 2 < d then f + 1
                   else if even f then f else f + 1))"

text \<open>
  The result of one double operation is the double nearest to the exact result, a tie going
  to the even significand (53 bits). \<open>binaryExponent a\<close> is the \<open>e\<close> with
  \<open>2 powi e \<le> a < 2 powi (e + 1)\<close> for a positive \<open>a\<close>. Overflow and subnormal
  results are not written out: the quotients and products of bytes that are rounded below
  lie far inside the normal range.
\<close>

definition roundHalfEven :: "number \<Rightarrow> int" where
  "roundHalfEven v =
     (let f = \<lfloor>v\<rfloor>; d = v - of_int f
      in if d < 1 / 2 then f
         else if 1 / 2 < d then f + 1
         else if even f then f else f + 1)"

definition binaryExponent :: "number \<Rightarrow> int" where
  "binaryExponent a =
     (case quotient_of a of (p, q) \<Rightarrow>
        let e0 = bitlen p - bitlen q
        in if 2 powi e0 \<le> a then e0 else e0 - 1)"

definition roundToDouble :: "number \<Rightarrow> number" where
  "roundToDouble v =
     (if v = 0 then 0
      else let a = \<bar>v\<bar>;
               u = 2 powi (binaryExponent a - 52)
           in sgn v * of_int (roundHalfEven (a / u)) * u)"

text \<open>\<open>String.prototype.includes\<close>.\<close>

fun includes_str :: "string \<Rightarrow> string \<Rightarrow> bool" where
  "includes_str [] sub = (sub = [])"
| "includes_str (c # cs) sub = (take (length sub) (c # cs) = sub \<or> includes_str cs sub)"

section \<open>Coordinate mapping (app/recognition/page.tsx)\<close>

record Recognition =
  bbox :: "number \<times> number \<times> number \<times> number"
  class_label :: string
  score :: number

record CanvasDimensions =
  canvas_width :: number
  canvas_height :: number

record ScalingParameters =
  scaledWidth :: number
  scaledHeight :: number
  offsetX :: number
  offsetY :: number

record Coordinates =
  c_x :: number
  c_y :: number
  c_width :: number
  c_height :: number

text \<open>
  \<open>convertCoordinates\<close>. The quotients \<open>canvas.width / scaling.scaledWidth\<close> and
  \<open>canvas.height / scaling.scaledHeight\<close> are not finite in the source when the divisor is 0;
  the statements below about them take the divisors to be non-zero.
\<close>

definition convertCoordinates ::
  "Recognition \<Rightarrow> string \<Rightarrow> CanvasDimensions \<Rightarrow> ScalingParameters \<Rightarrow> Coordinates" where
  "convertCoordinates recognition modelId canvas scaling =
     (if includes_str modelId ''detr'' \<or> includes_str modelId ''yolos'' then
        (case bbox recognition of (xmin, ymin, xmax, ymax) \<Rightarrow>
           let scaleX = canvas_width canvas / scaledWidth scaling;
               scaleY = canvas_height canvas / scaledHeight scaling
           in \<lparr>c_x = xmin * scaleX,
               c_y = ymin * scaleY,
               c_width = (xmax - xmin) * scaleX,
               c_height = (ymax - ymin) * scaleY\<rparr>)
      else
        (case bbox recognition of (bx, by, bw, bh) \<Rightarrow>
           let scaleX = canvas_width canvas / scaledWidth scaling;
               scaleY = canvas_height canvas / scaledHeight scaling
           in \<lparr>c_x = (bx - offsetX scaling) * scaleX,
               c_y = (by - offsetY scaling) * scaleY,
               c_width = bw * scaleX,
               c_height = bh * scaleY\<rparr>))"

text \<open>
  The bounds step of the inline mapping that an earlier revision of the recognition page
  performs after the same two mappings (commented there
  ``Ensure coordinates are within canvas bounds''):
  \<^verbatim>\<open>x = Math.max(0, Math.min(x, outputCanvas.width - width));\<close>
  \<^verbatim>\<open>y = Math.max(0, Math.min(y, outputCanvas.height - height));\<close>
  \<^verbatim>\<open>width = Math.min(width, outputCanvas.width - x);\<close>
  \<^verbatim>\<open>height = Math.min(height, outputCanvas.height - y);\<close>
\<close>

definition ensureWithinCanvas :: "CanvasDimensions \<Rightarrow> Coordinates \<Rightarrow> Coordinates" where
  "ensureWithinCanvas canvas coords =
     (let x1 = max 0 (min (c_x coords) (canvas_width canvas - c_width coords));
          y1 = max 0 (min (c_y coords) (canvas_height canvas - c_height coords));
          w1 = min (c_width coords) (canvas_width canvas - x1);
          h1 = min (c_height coords) (canvas_height canvas - y1)
      in \<lparr>c_x = x1, c_y = y1, c_width = w1, c_height = h1\<rparr>)"

text \<open>The property of a box that lies fully within the destination surface.\<close>

definition withinCanvas :: "CanvasDimensions \<Rightarrow> Coordinates \<Rightarrow> bool" where
  "withinCanvas canvas coords \<longleftrightarrow>
     0 \<le> c_x coords \<and> c_x coords \<le> canvas_width canvas - c_width coords \<and>
     0 \<le> c_y coords \<and> c_y coords \<le> canvas_height canvas - c_height coords \<and>
     c_width coords \<le> canvas_width canvas - c_x coords \<and>
     c_height coords \<le> canvas_height canvas - c_y coords"

text \<open>The two reference mappings, as the specification words them.\<close>

definition cornerPairMapping ::
  "number \<times> number \<times> number \<times> number \<Rightarrow> number \<Rightarrow> number \<Rightarrow> number \<Rightarrow> number \<Rightarrow> Coordinates" where
  "cornerPairMapping box destWidth destHeight sW sH =
     (case box of (xmin, ymin, xmax, ymax) \<Rightarrow>
        \<lparr>c_x = xmin * (destWidth / sW),
         c_y = ymin * (destHeight / sH),
         c_width = (xmax - xmin) * (destWidth / sW),
         c_height = (ymax - ymin) * (destHeight / sH)\<rparr>)"

definition originExtentMapping ::
  "number \<times> number \<times> number \<times> number \<Rightarrow> number \<Rightarrow> number \<Rightarrow> number \<Rightarrow> number
     \<Rightarrow> number \<Rightarrow> number \<Rightarrow> Coordinates" where
  "originExtentMapping box destWidth destHeight sW sH offX offY =
     (case box of (x_in, y_in, width_in, height_in) \<Rightarrow>
        \<lparr>c_x = (x_in - offX) * (destWidth / sW),
         c_y = (y_in - offY) * (destHeight / sH),
         c_width = width_in * (destWidth / sW),
         c_height = height_in * (destHeight / sH)\<rparr>)"

section \<open>Pixel filters (utils/image-processing.ts)\<close>

text \<open>
  A \<open>Uint8ClampedArray\<close>: a list of naturals, each at most 255 (\<open>validBuffer\<close>). A write
  beyond the end of a typed array is ignored, which is what list update does. A read beyond
  the end yields \<open>undefined\<close> in the source and is left unspecified here; the buffers of the
  pipeline hold \<open>width * height\<close> luminances and \<open>4 * width * height\<close> channel values, so
  that no such read occurs, and the statements below assume these lengths.
\<close>

type_synonym buffer = "nat list"

definition validBuffer :: "buffer \<Rightarrow> bool" where
  "validBuffer b = list_all (\<lambda>v. v \<le> 255) b"

definition convertToGrayscale :: "buffer \<Rightarrow> buffer" where
  "convertToGrayscale data =
     map (\<lambda>p. let i = 4 * p in
            toUint8Clamped (of_int (Math_round
              (299 / 1000 * of_nat (data ! i) + 587 / 1000 * of_nat (data ! (i + 1))
                 + 114 / 1000 * of_nat (data ! (i + 2))))))
         [0..<length data div 4]"

text \<open>
  The neighbourhood loops \<open>for dy = -r .. r\<close>, \<open>for dx = -r .. r\<close> run over
  \<open>j = dy + r\<close> and \<open>k = dx + r\<close> in \<open>0 .. 2 r\<close>; they are entered only with \<open>r \<le> y\<close> and
  \<open>r \<le> x\<close>. The radius is a number of pixels.
\<close>

definition neighbourhood :: "buffer \<Rightarrow> nat \<Rightarrow> nat \<Rightarrow> nat \<Rightarrow> nat \<Rightarrow> nat list" where
  "neighbourhood temp width filterRadius x y =
     concat (map (\<lambda>j. map (\<lambda>k. temp ! ((y + j - filterRadius) * width + (x + k - filterRadius)))
                           [0..<2 * filterRadius + 1])
                 [0..<2 * filterRadius + 1])"

definition median :: "nat list \<Rightarrow> nat" where
  "median values = sort values ! (length values div 2)"

definition applyMedianFilter :: "buffer \<Rightarrow> nat \<Rightarrow> nat \<Rightarrow> nat \<Rightarrow> bool \<Rightarrow> buffer" where
  "applyMedianFilter grayscale width height radius isDetection =
     (let filterRadius = (if isDetection then 1 else radius);
          temp = grayscale;
          result = grayscale
      in fold (\<lambda>y. fold (\<lambda>x res. res[y * width + x :=
                                      median (neighbourhood temp width filterRadius x y)])
                         [filterRadius..<width - filterRadius])
              [filterRadius..<height - filterRadius] result)"

definition sharpenKernel :: "bool \<Rightarrow> number list list" where
  "sharpenKernel isDetection =
     (if isDetection
      then [[0, - (1 / 2), 0], [- (1 / 2), 3, - (1 / 2)], [0, - (1 / 2), 0]]
      else [[0, - 1, 0], [- 1, 5, - 1], [0, - 1, 0]])"

definition convolve3 :: "number list list \<Rightarrow> buffer \<Rightarrow> nat \<Rightarrow> nat \<Rightarrow> nat \<Rightarrow> number" where
  "convolve3 kernel' temp width x y =
     fold (\<lambda>ky. fold (\<lambda>kx s. s + of_nat (temp ! ((y + ky - 1) * width + (x + kx - 1)))
                                  * (kernel' ! ky ! kx))
                      [0..<3])
          [0..<3] 0"

definition applySharpeningFilter :: "buffer \<Rightarrow> nat \<Rightarrow> nat \<Rightarrow> bool \<Rightarrow> buffer" where
  "applySharpeningFilter grayscale width height isDetection =
     (let kernel' = sharpenKernel isDetection;
          temp = grayscale;
          result = grayscale
      in fold (\<lambda>y. fold (\<lambda>x res. res[y * width + x :=
                                      toUint8Clamped (max 0 (min 255 (convolve3 kernel' temp width x y)))])
                         [1..<width - 1])
              [1..<height - 1] result)"

text \<open>\<open>calculateBlockStats\<close> returns \<open>{sum, min, max}\<close>, here a triple in that order.\<close>

definition calculateBlockStats ::
  "buffer \<Rightarrow> nat \<Rightarrow> nat \<Rightarrow> nat \<Rightarrow> nat \<Rightarrow> nat \<Rightarrow> nat \<times> nat \<times> nat" where
  "calculateBlockStats grayscale width bx by blockWidth blockHeight =
     fold (\<lambda>y. fold (\<lambda>x (s, mn, mx).
                        let v = grayscale ! ((by + y) * width + (bx + x))
                        in (s + v, min mn v, max mx v))
                     [0..<blockWidth])
          [0..<blockHeight] (0, 255, 0)"

text \<open>
  \<open>enhanceBlockContrast\<close> takes one \<open>BlockParameters\<close> object in the source; its fields
  are the arguments here, in the order \<open>grayscale, result, width, position, contrast\<close>.
\<close>

definition enhanceBlockContrast ::
  "buffer \<Rightarrow> buffer \<Rightarrow> nat \<Rightarrow> nat \<Rightarrow> nat \<Rightarrow> nat \<Rightarrow> nat \<Rightarrow> number \<Rightarrow> number \<Rightarrow> buffer" where
  "enhanceBlockContrast grayscale result width bx by blockWidth blockHeight mean scale =
     fold (\<lambda>y. fold (\<lambda>x res.
                        let idx = (by + y) * width + (bx + x);
                            v = grayscale ! idx
                        in res[idx := toUint8Clamped
                                        (max 0 (min 255 (mean + scale * (of_nat v - mean))))])
                     [0..<blockWidth])
          [0..<blockHeight] result"

text \<open>
  The body of the two tile loops of \<open>applyAdaptiveContrast\<close>. The source divides
  \<open>1 / contrast\<close> without a guard: for \<open>contrast = 0\<close> the double quotient is \<open>+Infinity\<close> and
  \<open>Math.min(contrastLimit, Infinity)\<close> is \<open>contrastLimit\<close>, which the first branch of
  \<open>scale\<close> writes out. The loops enter the body with a tile of at least one pixel, so that
  the divisor of \<open>mean\<close> is not 0.
\<close>

definition enhanceTile ::
  "buffer \<Rightarrow> nat \<Rightarrow> nat \<Rightarrow> nat \<Rightarrow> number \<Rightarrow> nat \<Rightarrow> nat \<Rightarrow> buffer \<Rightarrow> buffer" where
  "enhanceTile grayscale width height blockSize contrastLimit by bx result =
     (let blockWidth = min blockSize (width - bx);
          blockHeight = min blockSize (height - by)
      in case calculateBlockStats grayscale width bx by blockWidth blockHeight of
           (s, mn, mx) \<Rightarrow>
             let mean = of_nat s / of_nat (blockWidth * blockHeight);
                 contrast = (of_nat mx - of_nat mn) / 255;
                 scale = (if contrast = 0 then contrastLimit
                          else min contrastLimit (1 / contrast))
             in enhanceBlockContrast grayscale result width bx by blockWidth blockHeight
                  mean scale)"

text \<open>
  \<open>for (let bx = 0; bx < width; bx += blockSize)\<close> and the loop over \<open>by\<close> around it.
  With \<open>blockSize = 0\<close> an entered loop never leaves; \<open>None\<close> stands for not returning.
\<close>

function tileColumns ::
  "buffer \<Rightarrow> nat \<Rightarrow> nat \<Rightarrow> nat \<Rightarrow> number \<Rightarrow> nat \<Rightarrow> nat \<Rightarrow> buffer \<Rightarrow> buffer option" where
  "tileColumns grayscale width height blockSize contrastLimit by bx result =
     (if bx < width then
        (if blockSize = 0 then None
         else tileColumns grayscale width height blockSize contrastLimit by (bx + blockSize)
                (enhanceTile grayscale width height blockSize contrastLimit by bx result))
      else Some result)"
  by pat_completeness auto
termination
  by (relation "measure (\<lambda>(g, width, h, bs, cl, by, bx, r). width - bx)") auto

function tileRows ::
  "buffer \<Rightarrow> nat \<Rightarrow> nat \<Rightarrow> nat \<Rightarrow> number \<Rightarrow> nat \<Rightarrow> buffer \<Rightarrow> buffer option" where
  "tileRows grayscale width height blockSize contrastLimit by result =
     (if by < height then
        (case tileColumns grayscale width height blockSize contrastLimit by 0 result of
           None \<Rightarrow> None
         | Some result' \<Rightarrow>
             if blockSize = 0 then None
             else tileRows grayscale width height blockSize contrastLimit (by + blockSize) result')
      else Some result)"
  by pat_completeness auto
termination
  by (relation "measure (\<lambda>(g, w, height, bs, cl, by, r). height - by)") auto

definition applyAdaptiveContrast ::
  "buffer \<Rightarrow> nat \<Rightarrow> nat \<Rightarrow> nat \<Rightarrow> number \<Rightarrow> bool \<Rightarrow> buffer option" where
  "applyAdaptiveContrast grayscale width height blockSize maxContrast isDetection =
     (let contrastLimit = (if isDetection then 3 / 2 else maxContrast);
          result = grayscale
      in tileRows grayscale width height blockSize contrastLimit 0 result)"

declare tileColumns.simps [simp del]
declare tileRows.simps [simp del]

text \<open>The index of the pixel at offset \<open>(y, x) = p\<close> in the tile with origin \<open>(bx, by)\<close>.\<close>

definition tileIndex :: "nat \<Rightarrow> nat \<Rightarrow> nat \<Rightarrow> nat \<times> nat \<Rightarrow> nat" where
  "tileIndex width bx by p = (by + fst p) * width + (bx + snd p)"

text \<open>\<open>original || 1\<close>: the right operand replaces a left operand that is 0.\<close>

definition orOne :: "number \<Rightarrow> number" where
  "orOne original = (if original = 0 then 1 else original)"

text \<open>
  \<open>(data[i] + data[i + 1] + data[i + 2]) / 3\<close>: the sum of three bytes is exact, the
  quotient is rounded. \<open>data[i] * ratio\<close> is rounded before \<open>Math.min\<close> and \<open>Math.max\<close>
  and the store into the array.
\<close>

definition channelAverage :: "buffer \<Rightarrow> nat \<Rightarrow> number" where
  "channelAverage data i =
     roundToDouble ((of_nat (data ! i) + of_nat (data ! (i + 1)) + of_nat (data ! (i + 2))) / 3)"

definition scaleChannel :: "nat \<Rightarrow> number \<Rightarrow> nat" where
  "scaleChannel v ratio = toUint8Clamped (max 0 (min 255 (roundToDouble (of_nat v * ratio))))"

text \<open>
  \<open>applyEnhancedGrayscale\<close> mutates \<open>data\<close> in place; the updated buffer is returned.
  The loop \<open>for (i = 0; i < data.length; i += 4)\<close> runs over \<open>i = 4 p\<close>; \<open>enhancePixel\<close>
  is its body, with the quotient \<open>enhanced / (original || 1)\<close> rounded.
\<close>

definition enhancePixel :: "buffer \<Rightarrow> nat \<Rightarrow> buffer \<Rightarrow> buffer" where
  "enhancePixel grayscale p d =
     (let i = 4 * p;
          enhanced = of_nat (grayscale ! p);
          original = channelAverage d i;
          ratio = roundToDouble (enhanced / orOne original);
          d1 = d[i := scaleChannel (d ! i) ratio];
          d2 = d1[i + 1 := scaleChannel (d1 ! (i + 1)) ratio]
      in d2[i + 2 := scaleChannel (d2 ! (i + 2)) ratio])"

definition applyEnhancedGrayscale :: "buffer \<Rightarrow> buffer \<Rightarrow> buffer" where
  "applyEnhancedGrayscale data grayscale =
     fold (enhancePixel grayscale) [0..<(length data + 3) div 4] data"

text \<open>A 4 by 4 luminance buffer for the examples.\<close>

definition sampleLuminance :: buffer where
  "sampleLuminance = [1, 2, 3, 4, 5, 6, 7, 8, 200, 10, 11, 12, 13, 14, 15, 16]"

text \<open>A 4 by 1 luminance buffer whose first two pixels are equal.\<close>

definition flatStartLuminance :: buffer where
  "flatStartLuminance = [7, 7, 3, 4]"

section \<open>Preprocessing (utils/image-processing.ts)\<close>

datatype imageFormat = ImageJpeg | ImagePng | ImageWebp

datatype taskKind = Classification | Detection

datatype providerKind = Huggingface

text \<open>\<open>ProcessingOptions\<close>: every field is optional; \<open>None\<close> is an absent field.\<close>

record ProcessingOptions =
  opt_maxSize :: "nat option"
  opt_minSize :: "nat option"
  opt_quality :: "number option"
  opt_format :: "imageFormat option"
  opt_task :: "taskKind option"
  opt_enhanceContrast :: "bool option"
  opt_denoise :: "bool option"
  opt_sharpen :: "bool option"
  opt_provider :: "providerKind option"

text \<open>\<open>Required<ProcessingOptions>\<close>; \<open>provider\<close> stays \<open>undefined\<close> when it is not given.\<close>

record RequiredOptions =
  maxSize :: nat
  minSize :: nat
  quality :: number
  format :: imageFormat
  task :: taskKind
  enhanceContrast :: bool
  denoise :: bool
  sharpen :: bool
  provider :: "providerKind option"

definition DEFAULT_OPTIONS :: RequiredOptions where
  "DEFAULT_OPTIONS =
     \<lparr>maxSize = 1024, minSize = 224, quality = 9 / 10, format = ImageJpeg,
      task = Classification, enhanceContrast = True, denoise = True, sharpen = True,
      provider = None\<rparr>"

text \<open>\<open>{ ...DEFAULT_OPTIONS, ...options }\<close>.\<close>

definition mergeOptions :: "RequiredOptions \<Rightarrow> ProcessingOptions \<Rightarrow> RequiredOptions" where
  "mergeOptions defaults options =
     \<lparr>maxSize = (case opt_maxSize options of None \<Rightarrow> maxSize defaults | Some v \<Rightarrow> v),
      minSize = (case opt_minSize options of None \<Rightarrow> minSize defaults | Some v \<Rightarrow> v),
      quality = (case opt_quality options of None \<Rightarrow> quality defaults | Some v \<Rightarrow> v),
      format = (case opt_format options of None \<Rightarrow> format defaults | Some v \<Rightarrow> v),
      task = (case opt_task options of None \<Rightarrow> task defaults | Some v \<Rightarrow> v),
      enhanceContrast =
        (case opt_enhanceContrast options of None \<Rightarrow> enhanceContrast defaults | Some v \<Rightarrow> v),
      denoise = (case opt_denoise options of None \<Rightarrow> denoise defaults | Some v \<Rightarrow> v),
      sharpen = (case opt_sharpen options of None \<Rightarrow> sharpen defaults | Some v \<Rightarrow> v),
      provider = (case opt_provider options of None \<Rightarrow> provider defaults | Some v \<Rightarrow> Some v)\<rparr>"

text \<open>
  The input \<open>HTMLImageElement\<close>: its natural size, and the RGBA pixels that the browser's
  smoothed \<open>drawImage(image, 0, 0, w, h)\<close> puts on a \<open>w\<close> by \<open>h\<close> canvas.
\<close>

record image =
  naturalWidth :: nat
  naturalHeight :: nat
  drawnAt :: "nat \<Rightarrow> nat \<Rightarrow> buffer"

text \<open>
  The canvas with its 2D context: size, RGBA pixel data, and the drawing operations
  performed on it so far, latest last.
\<close>

datatype canvasOp = SetSize nat nat | DrawImage nat nat | PutImageData

record canvas =
  cv_width :: nat
  cv_height :: nat
  cv_data :: buffer
  cv_ops :: "canvasOp list"

text \<open>\<open>document.createElement('canvas')\<close>: 300 by 150, transparent black.\<close>

definition createCanvas :: canvas where
  "createCanvas = \<lparr>cv_width = 300, cv_height = 150, cv_data = replicate (4 * 300 * 150) 0, cv_ops = []\<rparr>"

definition setSize :: "canvas \<Rightarrow> nat \<Rightarrow> nat \<Rightarrow> canvas" where
  "setSize c w h =
     \<lparr>cv_width = w, cv_height = h, cv_data = replicate (4 * w * h) 0,
      cv_ops = cv_ops c @ [SetSize w h]\<rparr>"

definition drawImage :: "canvas \<Rightarrow> image \<Rightarrow> nat \<Rightarrow> nat \<Rightarrow> canvas" where
  "drawImage c img w h = c\<lparr>cv_data := drawnAt img w h, cv_ops := cv_ops c @ [DrawImage w h]\<rparr>"

definition putImageData :: "canvas \<Rightarrow> buffer \<Rightarrow> canvas" where
  "putImageData c data = c\<lparr>cv_data := data, cv_ops := cv_ops c @ [PutImageData]\<rparr>"

text \<open>What the promise of \<open>preprocessImage\<close> is rejected with.\<close>

datatype cause = NoCanvasContext | BelowMinimumDimensions nat | IndexSizeError

datatype error = ImageProcessingFailed cause | FailedToLoadProcessedImage

text \<open>
  \<open>applyImageFilters\<close>. \<open>getImageData(0, 0, width, height)\<close> throws for an empty rectangle;
  the only call reads the whole canvas, which has just been given this size, so that the image
  data is the pixel data of the canvas, and \<open>putImageData(imageData, 0, 0)\<close> replaces it.
  \<open>None\<close> stands for not returning.
\<close>

definition applyImageFilters ::
  "canvas \<Rightarrow> nat \<Rightarrow> nat \<Rightarrow> RequiredOptions \<Rightarrow> (cause + canvas) option" where
  "applyImageFilters ctx width height options =
     (if width = 0 \<or> height = 0 then Some (Inl IndexSizeError)
      else
        let data = cv_data ctx;
            isDetection = (task options = Detection)
        in if isDetection then Some (Inr ctx)
           else
             let grayscale0 = convertToGrayscale data;
                 grayscale1 = (if denoise options
                               then applyMedianFilter grayscale0 width height 1 False
                               else grayscale0);
                 grayscale2 = (if sharpen options
                               then applySharpeningFilter grayscale1 width height False
                               else grayscale1)
             in case (if enhanceContrast options
                      then applyAdaptiveContrast grayscale2 width height 8 2 False
                      else Some grayscale2) of
                  None \<Rightarrow> None
                | Some grayscale3 \<Rightarrow>
                    Some (Inr (putImageData ctx (applyEnhancedGrayscale data grayscale3))))"

text \<open>
  The data URL of \<open>canvas.toDataURL(format, quality)\<close>: the arguments of the call and the
  canvas content that is encoded.
\<close>

record dataUrl =
  url_format :: imageFormat
  url_quality :: number
  url_width :: nat
  url_height :: nat
  url_pixels :: buffer

definition toDataURL :: "canvas \<Rightarrow> imageFormat \<Rightarrow> number \<Rightarrow> dataUrl" where
  "toDataURL c fmt q =
     \<lparr>url_format = fmt, url_quality = q, url_width = cv_width c, url_height = cv_height c,
      url_pixels = cv_data c\<rparr>"

text \<open>
  \<open>ProcessedImage\<close>. The \<open>element\<close> is the new image whose \<open>src\<close> is the data URL.
  \<open>aspectRatio\<close> is \<open>width / height\<close> of the natural size; \<open>None\<close> stands for the
  non-finite quotient of a height 0.
\<close>

record ProcessedImage =
  element :: dataUrl
  p_width :: nat
  p_height :: nat
  aspectRatio :: "number option"
  p_dataUrl :: dataUrl

text \<open>
  What the browser decides: whether \<open>canvas.getContext('2d')\<close> yields a context, and
  whether the re-encoded image loads (\<open>onload\<close>) or not (\<open>onerror\<close>).
\<close>

record environment =
  contextAvailable :: bool
  processedImageLoads :: bool

text \<open>
  \<open>preprocessImage\<close>, with the canvas it worked on beside the outcome of the promise:
  \<open>Inr\<close> the resolved value, \<open>Inl\<close> the rejection. \<open>None\<close> stands for not returning.
  The quotient in \<open>Math.round((height * maxSize) / width)\<close> is taken where \<open>width > height\<close>,
  and the one in \<open>Math.round((width * maxSize) / height)\<close> where \<open>height\<close> exceeds
  \<open>maxSize\<close>, so that neither divisor is 0.
\<close>

definition preprocessImage ::
  "environment \<Rightarrow> image \<Rightarrow> ProcessingOptions \<Rightarrow> (canvas \<times> (error + ProcessedImage)) option" where
  "preprocessImage env img options =
     (let processOptions = mergeOptions DEFAULT_OPTIONS options;
          isDetection = (task processOptions = Detection);
          isHuggingFace = (provider processOptions = Some Huggingface);
          canvas0 = createCanvas
      in if \<not> contextAvailable env
         then Some (canvas0, Inl (ImageProcessingFailed NoCanvasContext))
         else
           let width = naturalWidth img;
               height = naturalHeight img;
               aspect = (if height = 0 then None else Some (of_nat width / of_nat height))
           in if width < minSize processOptions \<or> height < minSize processOptions
              then Some (canvas0,
                     Inl (ImageProcessingFailed (BelowMinimumDimensions (minSize processOptions))))
              else
                let maxSize' = (if isHuggingFace then 800
                                else if isDetection then min 640 (maxSize processOptions)
                                else maxSize processOptions);
                    (width', height') =
                       (if width > maxSize' \<or> height > maxSize' then
                          (if width > height
                           then (maxSize',
                                 nat (Math_round (of_nat (height * maxSize') / of_nat width)))
                           else (nat (Math_round (of_nat (width * maxSize') / of_nat height)),
                                 maxSize'))
                        else (width, height));
                    canvas1 = setSize canvas0 width' height';
                    canvas2 = drawImage canvas1 img width' height'
                in case applyImageFilters canvas2 width' height' processOptions of
                     None \<Rightarrow> None
                   | Some (Inl c) \<Rightarrow> Some (canvas2, Inl (ImageProcessingFailed c))
                   | Some (Inr canvas3) \<Rightarrow>
                       let quality' = (if isHuggingFace then 1
                                       else if isDetection then 1
                                       else quality processOptions);
                           format' = (if isHuggingFace then ImagePng else format processOptions);
                           url = toDataURL canvas3 format' quality'
                       in if processedImageLoads env
                          then Some (canvas3,
                                 Inr \<lparr>element = url, p_width = width', p_height = height',
                                      aspectRatio = aspect, p_dataUrl = url\<rparr>)
                          else Some (canvas3, Inl FailedToLoadProcessedImage))"

text \<open>The effective target of the scaling, as the specification words it.\<close>

definition targetMaxDimension :: "RequiredOptions \<Rightarrow> nat" where
  "targetMaxDimension ro =
     (if provider ro = Some Huggingface then 800
      else if task ro = Detection then min 640 (maxSize ro)
      else maxSize ro)"

text \<open>
  The scaling step of \<open>preprocessImage\<close> (``Scale down if image is too large''), from the
  natural size and the maximum to the new width and height.
\<close>

definition scaledSize :: "nat \<Rightarrow> nat \<Rightarrow> nat \<Rightarrow> nat \<times> nat" where
  "scaledSize w h m =
     (if m < w \<or> m < h then
        (if h < w then (m, nat (Math_round (of_nat (h * m) / of_nat w)))
         else (nat (Math_round (of_nat (w * m) / of_nat h)), m))
      else (w, h))"

text \<open>What a call resolved with: the size of the result, and the format and quality of its data URL.\<close>

definition outputSize :: "(canvas \<times> (error + ProcessedImage)) option \<Rightarrow> (nat \<times> nat) option" where
  "outputSize r = (case r of Some (c, Inr out) \<Rightarrow> Some (p_width out, p_height out) | _ \<Rightarrow> None)"

definition encodingOf ::
  "(canvas \<times> (error + ProcessedImage)) option \<Rightarrow> (imageFormat \<times> number) option" where
  "encodingOf r =
     (case r of
        Some (c, Inr out) \<Rightarrow> Some (url_format (p_dataUrl out), url_quality (p_dataUrl out))
      | _ \<Rightarrow> None)"

text \<open>Inputs for the examples: \<open>{}\<close>, \<open>{ task: 'detection' }\<close>, a black picture, a working browser.\<close>

definition noOptions :: ProcessingOptions where
  "noOptions =
     \<lparr>opt_maxSize = None, opt_minSize = None, opt_quality = None, opt_format = None,
      opt_task = None, opt_enhanceContrast = None, opt_denoise = None,
      opt_sharpen = None, opt_provider = None\<rparr>"

definition detectionOptions :: ProcessingOptions where
  "detectionOptions = noOptions\<lparr>opt_task := Some Detection\<rparr>"

definition blankImage :: "nat \<Rightarrow> nat \<Rightarrow> image" where
  "blankImage w h =
     \<lparr>naturalWidth = w, naturalHeight = h, drawnAt = (\<lambda>w' h'. replicate (4 * w' * h') 0)\<rparr>"

definition browser :: environment where
  "browser = \<lparr>contextAvailable = True, processedImageLoads = True\<rparr>"

section \<open>The in-flight flag (utils/ml-models.ts)\<close>

text \<open>
  The module variable \<open>isModelLoading\<close>, with the number of calls of each \<open>async\<close> function
  that have been entered and are not yet settled. A call runs without interruption up to its
  first \<open>await\<close>, and again from its last \<open>await\<close> to its end; only these two pieces of
  \<open>detectObjects\<close> touch the flag, and no piece of \<open>classifyImage\<close> does.
\<close>

record moduleState =
  isModelLoading :: bool
  detectInFlight :: nat
  classifyInFlight :: nat

datatype callError = AnotherRecognitionInProgress

datatype callOutcome = Thrown callError | Awaiting

text \<open>
  Entering \<open>detectObjects\<close>: the test of the flag before the \<open>try\<close>, and
  \<open>isModelLoading = true\<close> as the first statement of the \<open>try\<close>.
\<close>

definition detectObjects_enter :: "moduleState \<Rightarrow> moduleState \<times> callOutcome" where
  "detectObjects_enter s =
     (if isModelLoading s then (s, Thrown AnotherRecognitionInProgress)
      else (s\<lparr>isModelLoading := True, detectInFlight := detectInFlight s + 1\<rparr>, Awaiting))"

text \<open>
  Leaving the \<open>try\<close> of \<open>detectObjects\<close>, by a \<open>return\<close> or by the rethrow of the \<open>catch\<close>:
  the \<open>finally\<close> block.
\<close>

definition detectObjects_settle :: "moduleState \<Rightarrow> moduleState" where
  "detectObjects_settle s = s\<lparr>isModelLoading := False, detectInFlight := detectInFlight s - 1\<rparr>"

definition classifyImage_enter :: "moduleState \<Rightarrow> moduleState \<times> callOutcome" where
  "classifyImage_enter s = (s\<lparr>classifyInFlight := classifyInFlight s + 1\<rparr>, Awaiting)"

definition classifyImage_settle :: "moduleState \<Rightarrow> moduleState" where
  "classifyImage_settle s = s\<lparr>classifyInFlight := classifyInFlight s - 1\<rparr>"

definition initialState :: moduleState where
  "initialState = \<lparr>isModelLoading = False, detectInFlight = 0, classifyInFlight = 0\<rparr>"

datatype event = CallDetectObjects | SettleDetectObjects | CallClassifyImage | SettleClassifyImage

text \<open>One event of the page; a call can settle only while it is in flight.\<close>

fun step :: "moduleState \<Rightarrow> event \<Rightarrow> moduleState option" where
  "step s CallDetectObjects = Some (fst (detectObjects_enter s))"
| "step s SettleDetectObjects =
     (if 0 < detectInFlight s then Some (detectObjects_settle s) else None)"
| "step s CallClassifyImage = Some (fst (classifyImage_enter s))"
| "step s SettleClassifyImage =
     (if 0 < classifyInFlight s then Some (classifyImage_settle s) else None)"

fun run :: "moduleState \<Rightarrow> event list \<Rightarrow> moduleState option" where
  "run s [] = Some s"
| "run s (e # es) = (case step s e of None \<Rightarrow> None | Some s' \<Rightarrow> run s' es)"

section \<open>Arithmetic\<close>

lemma floor_rat_numeral: "\<lfloor>numeral a / (numeral b :: rat)\<rfloor> = numeral a div numeral b"
  by (metis floor_divide_of_int_eq of_int_numeral)

lemma Math_round_nonneg: "0 \<le> q \<Longrightarrow> 0 \<le> Math_round q"
  by (simp add: Math_round_def)

lemma Math_round_near: "\<bar>of_int (Math_round q) - q\<bar> \<le> 1 / 2"
  unfolding Math_round_def by linarith

lemma Math_round_le: "q \<le> of_int n \<Longrightarrow> Math_round q \<le> n"
  unfolding Math_round_def by linarith

section \<open>Properties of the coordinate mapping\<close>

lemma ensureWithinCanvas_within: "withinCanvas canvas (ensureWithinCanvas canvas coords)"
  by (simp add: withinCanvas_def ensureWithinCanvas_def Let_def min_def max_def)

text \<open>
  C1. The claim: every box that \<open>convertCoordinates\<close> returns lies fully within the
  destination surface. \<open>convertCoordinates\<close> returns the scaled box as it is: a COCO-SSD box
  \<open>[600, 0, 100, 50]\<close> on a 640 by 480 canvas at scale 1 is returned with \<open>x = 600\<close> and
  \<open>width = 100\<close>, past the right edge. The bounds step of the inline mapping
  (\<open>ensureWithinCanvas\<close>) is what puts every box within the canvas
  (\<open>ensureWithinCanvas_within\<close>); \<open>convertCoordinates\<close> lacks it.
\<close>

theorem convertCoordinates_box_past_canvas:
  "convertCoordinates
       \<lparr>bbox = (600, 0, 100, 50), class_label = ''person'', score = 9 / 10\<rparr>
       ''coco-ssd''
       \<lparr>canvas_width = 640, canvas_height = 480\<rparr>
       \<lparr>scaledWidth = 640, scaledHeight = 480, offsetX = 0, offsetY = 0\<rparr>
     = \<lparr>c_x = 600, c_y = 0, c_width = 100, c_height = 50\<rparr>
   \<and> \<not> withinCanvas \<lparr>canvas_width = 640, canvas_height = 480\<rparr>
         (convertCoordinates
            \<lparr>bbox = (600, 0, 100, 50), class_label = ''person'', score = 9 / 10\<rparr>
            ''coco-ssd''
            \<lparr>canvas_width = 640, canvas_height = 480\<rparr>
            \<lparr>scaledWidth = 640, scaledHeight = 480, offsetX = 0, offsetY = 0\<rparr>)"
  by (simp add: convertCoordinates_def withinCanvas_def)

text \<open>
  C2. \<open>convertCoordinates\<close> is the reference mapping that the model identifier selects:
  the corner-pair mapping for an identifier that contains \<open>detr\<close> or \<open>yolos\<close>, the
  origin and extent mapping for every other one. For such an identifier, a scaled width of
  640, a destination width of 1280 and a vertical scale of 2 as well, the corner-pair box
  \<open>[100, 50, 200, 150]\<close> is mapped to \<open>{x: 200, y: 100, width: 200, height: 200}\<close>.
\<close>

theorem convertCoordinates_reference_mapping:
  "convertCoordinates recognition modelId canvas scaling =
     (if includes_str modelId ''detr'' \<or> includes_str modelId ''yolos''
      then cornerPairMapping (bbox recognition) (canvas_width canvas) (canvas_height canvas)
             (scaledWidth scaling) (scaledHeight scaling)
      else originExtentMapping (bbox recognition) (canvas_width canvas) (canvas_height canvas)
             (scaledWidth scaling) (scaledHeight scaling) (offsetX scaling) (offsetY scaling))
   \<and> (includes_str modelId ''detr'' \<or> includes_str modelId ''yolos'' \<longrightarrow> sH \<noteq> 0 \<longrightarrow>
        convertCoordinates
          \<lparr>bbox = (100, 50, 200, 150), class_label = l, score = sc\<rparr> modelId
          \<lparr>canvas_width = 1280, canvas_height = 2 * sH\<rparr>
          \<lparr>scaledWidth = 640, scaledHeight = sH, offsetX = oX, offsetY = oY\<rparr>
        = \<lparr>c_x = 200, c_y = 100, c_width = 200, c_height = 200\<rparr>)"
  by (simp add: convertCoordinates_def cornerPairMapping_def originExtentMapping_def Let_def
      split: prod.splits)

theorem convertCoordinates_reference_mapping_witness:
  "includes_str ''facebook/detr-resnet-50'' ''detr'' \<and> (480 :: rat) \<noteq> 0
   \<and> convertCoordinates
        \<lparr>bbox = (100, 50, 200, 150), class_label = ''dog'', score = 4 / 5\<rparr>
        ''facebook/detr-resnet-50''
        \<lparr>canvas_width = 1280, canvas_height = 2 * 480\<rparr>
        \<lparr>scaledWidth = 640, scaledHeight = 480, offsetX = 0, offsetY = 0\<rparr>
      = \<lparr>c_x = 200, c_y = 100, c_width = 200, c_height = 200\<rparr>"
proof -
  have i: "includes_str ''facebook/detr-resnet-50'' ''detr''" by simp
  have n: "(480 :: rat) \<noteq> 0" by simp
  from convertCoordinates_reference_mapping
         [of _ "''facebook/detr-resnet-50''" _ _ 480 "''dog''" "4 / 5" 0 0] i n
  show ?thesis by blast
qed

section \<open>Properties of the preprocessing\<close>

lemma cv_ops_createCanvas: "cv_ops createCanvas = []"
  by (simp add: createCanvas_def)

lemma preprocessImage_no_context:
  "\<not> contextAvailable env \<Longrightarrow>
   preprocessImage env img options = Some (createCanvas, Inl (ImageProcessingFailed NoCanvasContext))"
  by (simp add: preprocessImage_def Let_def)

lemma preprocessImage_too_small:
  "contextAvailable env \<Longrightarrow>
   naturalWidth img < minSize (mergeOptions DEFAULT_OPTIONS options)
     \<or> naturalHeight img < minSize (mergeOptions DEFAULT_OPTIONS options) \<Longrightarrow>
   preprocessImage env img options =
     Some (createCanvas,
       Inl (ImageProcessingFailed
              (BelowMinimumDimensions (minSize (mergeOptions DEFAULT_OPTIONS options)))))"
  by (simp add: preprocessImage_def Let_def)

text \<open>Past the two checks, the call is the rest of the body at the scaled size.\<close>

lemma preprocessImage_large_enough:
  assumes "contextAvailable env"
    and "minSize (mergeOptions DEFAULT_OPTIONS options) \<le> naturalWidth img"
    and "minSize (mergeOptions DEFAULT_OPTIONS options) \<le> naturalHeight img"
    and "scaledSize (naturalWidth img) (naturalHeight img)
           (targetMaxDimension (mergeOptions DEFAULT_OPTIONS options)) = (w, h)"
  shows "preprocessImage env img options =
     (case applyImageFilters (drawImage (setSize createCanvas w h) img w h) w h
             (mergeOptions DEFAULT_OPTIONS options) of
        None \<Rightarrow> None
      | Some (Inl e) \<Rightarrow>
          Some (drawImage (setSize createCanvas w h) img w h, Inl (ImageProcessingFailed e))
      | Some (Inr canvas3) \<Rightarrow>
          if processedImageLoads env
          then Some (canvas3,
                 Inr \<lparr>element = toDataURL canvas3
                         (if provider (mergeOptions DEFAULT_OPTIONS options) = Some Huggingface
                          then ImagePng else format (mergeOptions DEFAULT_OPTIONS options))
                         (if provider (mergeOptions DEFAULT_OPTIONS options) = Some Huggingface
                             \<or> task (mergeOptions DEFAULT_OPTIONS options) = Detection
                          then 1 else quality (mergeOptions DEFAULT_OPTIONS options)),
                      p_width = w, p_height = h,
                      aspectRatio = (if naturalHeight img = 0 then None
                                     else Some (of_nat (naturalWidth img) / of_nat (naturalHeight img))),
                      p_dataUrl = toDataURL canvas3
                         (if provider (mergeOptions DEFAULT_OPTIONS options) = Some Huggingface
                          then ImagePng else format (mergeOptions DEFAULT_OPTIONS options))
                         (if provider (mergeOptions DEFAULT_OPTIONS options) = Some Huggingface
                             \<or> task (mergeOptions DEFAULT_OPTIONS options) = Detection
                          then 1 else quality (mergeOptions DEFAULT_OPTIONS options))\<rparr>)
          else Some (canvas3, Inl FailedToLoadProcessedImage))"
proof -
  have sz: "(if targetMaxDimension (mergeOptions DEFAULT_OPTIONS options) < naturalWidth img
                \<or> targetMaxDimension (mergeOptions DEFAULT_OPTIONS options) < naturalHeight img
             then if naturalHeight img < naturalWidth img
                  then (targetMaxDimension (mergeOptions DEFAULT_OPTIONS options),
                        nat (Math_round (of_nat (naturalHeight img
                               * targetMaxDimension (mergeOptions DEFAULT_OPTIONS options))
                             / of_nat (naturalWidth img))))
                  else (nat (Math_round (of_nat (naturalWidth img
                               * targetMaxDimension (mergeOptions DEFAULT_OPTIONS options))
                             / of_nat (naturalHeight img))),
                        targetMaxDimension (mergeOptions DEFAULT_OPTIONS options))
             else (naturalWidth img, naturalHeight img)) = (w, h)"
    using assms(4) by (simp add: scaledSize_def)
  have tm: "(if provider (mergeOptions DEFAULT_OPTIONS options) = Some Huggingface then 800
             else if task (mergeOptions DEFAULT_OPTIONS options) = Detection
                  then min 640 (maxSize (mergeOptions DEFAULT_OPTIONS options))
                  else maxSize (mergeOptions DEFAULT_OPTIONS options))
            = targetMaxDimension (mergeOptions DEFAULT_OPTIONS options)"
    by (simp add: targetMaxDimension_def)
  from assms(1-3) have "\<not> (naturalWidth img < minSize (mergeOptions DEFAULT_OPTIONS options)
      \<or> naturalHeight img < minSize (mergeOptions DEFAULT_OPTIONS options))" by auto
  then show ?thesis
    using assms(1)
    unfolding preprocessImage_def Let_def tm sz
    by (simp cong: option.case_cong sum.case_cong)
qed

lemma preprocessImage_resolved:
  assumes "preprocessImage env img options = Some (c, Inr out)"
  shows "contextAvailable env
     \<and> minSize (mergeOptions DEFAULT_OPTIONS options) \<le> naturalWidth img
     \<and> minSize (mergeOptions DEFAULT_OPTIONS options) \<le> naturalHeight img"
proof -
  have a: "contextAvailable env"
    using assms preprocessImage_no_context [of env img options] by auto
  have "\<not> (naturalWidth img < minSize (mergeOptions DEFAULT_OPTIONS options)
     \<or> naturalHeight img < minSize (mergeOptions DEFAULT_OPTIONS options))"
    using assms a preprocessImage_too_small [of env img options] by auto
  with a show ?thesis by auto
qed

lemma preprocessImage_resolved_value:
  assumes "preprocessImage env img options = Some (c, Inr out)"
  shows "(p_width out, p_height out) =
           scaledSize (naturalWidth img) (naturalHeight img)
             (targetMaxDimension (mergeOptions DEFAULT_OPTIONS options))
     \<and> url_format (p_dataUrl out) =
         (if provider (mergeOptions DEFAULT_OPTIONS options) = Some Huggingface
          then ImagePng else format (mergeOptions DEFAULT_OPTIONS options))
     \<and> url_quality (p_dataUrl out) =
         (if provider (mergeOptions DEFAULT_OPTIONS options) = Some Huggingface
             \<or> task (mergeOptions DEFAULT_OPTIONS options) = Detection
          then 1 else quality (mergeOptions DEFAULT_OPTIONS options))"
proof -
  obtain w h where wh: "scaledSize (naturalWidth img) (naturalHeight img)
             (targetMaxDimension (mergeOptions DEFAULT_OPTIONS options)) = (w, h)"
    by (cases "scaledSize (naturalWidth img) (naturalHeight img)
             (targetMaxDimension (mergeOptions DEFAULT_OPTIONS options))") auto
  note r = preprocessImage_resolved [OF assms]
  note eq = preprocessImage_large_enough [OF conjunct1 [OF r] conjunct1 [OF conjunct2 [OF r]]
               conjunct2 [OF conjunct2 [OF r]] wh]
  show ?thesis
    using assms unfolding eq wh
    by (auto split: option.splits sum.splits if_splits simp: toDataURL_def)
qed

lemma applyImageFilters_detection:
  "task ro = Detection \<Longrightarrow>
   applyImageFilters ctx width height ro =
     (if width = 0 \<or> height = 0 then Some (Inl IndexSizeError) else Some (Inr ctx))"
  by (simp add: applyImageFilters_def)

lemmas example_defs = preprocessImage_def mergeOptions_def DEFAULT_OPTIONS_def
  applyImageFilters_def toDataURL_def setSize_def drawImage_def Math_round_def
  browser_def blankImage_def detectionOptions_def noOptions_def Let_def floor_rat_numeral

text \<open>
  C3. The claim: \<open>preprocessImage\<close> rejects with the minimum-dimension error if and only if
  the natural width or height is below \<open>minSize\<close> (224 unless given), before any resize or
  filter. The source tests for the 2D context first, so this holds where the context is
  available: then an image with a side below \<open>minSize\<close> is rejected with that error on the
  canvas as it was created, no operation performed on it, and an image with both sides at
  least \<open>minSize\<close> is never rejected with it.
\<close>

theorem preprocessImage_minimum_dimension:
  "contextAvailable env \<Longrightarrow>
   (naturalWidth img < minSize (mergeOptions DEFAULT_OPTIONS options)
      \<or> naturalHeight img < minSize (mergeOptions DEFAULT_OPTIONS options) \<longrightarrow>
    preprocessImage env img options =
      Some (createCanvas,
        Inl (ImageProcessingFailed
               (BelowMinimumDimensions (minSize (mergeOptions DEFAULT_OPTIONS options))))) \<and>
    cv_ops createCanvas = []) \<and>
   (minSize (mergeOptions DEFAULT_OPTIONS options) \<le> naturalWidth img
      \<and> minSize (mergeOptions DEFAULT_OPTIONS options) \<le> naturalHeight img \<longrightarrow>
    (\<forall>c n. preprocessImage env img options
             \<noteq> Some (c, Inl (ImageProcessingFailed (BelowMinimumDimensions n))))) \<and>
   (opt_minSize options = None \<longrightarrow> minSize (mergeOptions DEFAULT_OPTIONS options) = 224)"
proof (intro conjI impI allI)
  assume "contextAvailable env"
    "naturalWidth img < minSize (mergeOptions DEFAULT_OPTIONS options)
      \<or> naturalHeight img < minSize (mergeOptions DEFAULT_OPTIONS options)"
  then show "preprocessImage env img options =
      Some (createCanvas,
        Inl (ImageProcessingFailed
               (BelowMinimumDimensions (minSize (mergeOptions DEFAULT_OPTIONS options)))))"
    by (rule preprocessImage_too_small)
next
  show "cv_ops createCanvas = []" by (rule cv_ops_createCanvas)
next
  fix c n
  assume a: "contextAvailable env"
    and b: "minSize (mergeOptions DEFAULT_OPTIONS options) \<le> naturalWidth img
      \<and> minSize (mergeOptions DEFAULT_OPTIONS options) \<le> naturalHeight img"
  obtain w h where wh: "scaledSize (naturalWidth img) (naturalHeight img)
             (targetMaxDimension (mergeOptions DEFAULT_OPTIONS options)) = (w, h)"
    by (cases "scaledSize (naturalWidth img) (naturalHeight img)
             (targetMaxDimension (mergeOptions DEFAULT_OPTIONS options))") auto
  have af: "applyImageFilters ctx w h ro \<noteq> Some (Inl (BelowMinimumDimensions n))" for ctx ro
    by (auto simp: applyImageFilters_def Let_def split: option.splits if_splits)
  show "preprocessImage env img options
             \<noteq> Some (c, Inl (ImageProcessingFailed (BelowMinimumDimensions n)))"
    unfolding preprocessImage_large_enough [OF a conjunct1 [OF b] conjunct2 [OF b] wh]
    using af by (auto split: option.splits sum.splits if_splits)
next
  assume "opt_minSize options = None"
  then show "minSize (mergeOptions DEFAULT_OPTIONS options) = 224"
    by (simp add: mergeOptions_def DEFAULT_OPTIONS_def)
qed

theorem preprocessImage_minimum_dimension_witness:
  "contextAvailable browser
   \<and> naturalWidth (blankImage 100 300) < minSize (mergeOptions DEFAULT_OPTIONS noOptions)
   \<and> preprocessImage browser (blankImage 100 300) noOptions =
       Some (createCanvas, Inl (ImageProcessingFailed (BelowMinimumDimensions 224)))
   \<and> minSize (mergeOptions DEFAULT_OPTIONS detectionOptions) \<le> naturalWidth (blankImage 1280 960)
   \<and> minSize (mergeOptions DEFAULT_OPTIONS detectionOptions) \<le> naturalHeight (blankImage 1280 960)
   \<and> preprocessImage browser (blankImage 1280 960) detectionOptions
       \<noteq> Some (createCanvas, Inl (ImageProcessingFailed (BelowMinimumDimensions 224)))"
proof -
  have c: "contextAvailable browser" by (simp add: browser_def)
  have s: "naturalWidth (blankImage 100 300) < minSize (mergeOptions DEFAULT_OPTIONS noOptions)"
    by (simp add: blankImage_def mergeOptions_def DEFAULT_OPTIONS_def noOptions_def)
  have m: "minSize (mergeOptions DEFAULT_OPTIONS noOptions) = 224"
    by (simp add: mergeOptions_def DEFAULT_OPTIONS_def noOptions_def)
  have l: "minSize (mergeOptions DEFAULT_OPTIONS detectionOptions) \<le> naturalWidth (blankImage 1280 960)"
    "minSize (mergeOptions DEFAULT_OPTIONS detectionOptions) \<le> naturalHeight (blankImage 1280 960)"
    by (simp_all add: blankImage_def mergeOptions_def DEFAULT_OPTIONS_def noOptions_def
          detectionOptions_def)
  from preprocessImage_minimum_dimension [OF c, of "blankImage 100 300" noOptions] s m
  have 1: "preprocessImage browser (blankImage 100 300) noOptions =
       Some (createCanvas, Inl (ImageProcessingFailed (BelowMinimumDimensions 224)))"
    by simp
  from preprocessImage_minimum_dimension [OF c, of "blankImage 1280 960" detectionOptions] l
  have 2: "preprocessImage browser (blankImage 1280 960) detectionOptions
       \<noteq> Some (createCanvas, Inl (ImageProcessingFailed (BelowMinimumDimensions 224)))"
    by blast
  from c s 1 l 2 show ?thesis by blast
qed

theorem preprocessImage_minimum_dimension_counterexample:
  "naturalWidth (blankImage 100 100) < minSize (mergeOptions DEFAULT_OPTIONS noOptions)
   \<and> preprocessImage \<lparr>contextAvailable = False, processedImageLoads = True\<rparr>
        (blankImage 100 100) noOptions
      = Some (createCanvas, Inl (ImageProcessingFailed NoCanvasContext))
   \<and> preprocessImage \<lparr>contextAvailable = False, processedImageLoads = True\<rparr>
        (blankImage 100 100) noOptions
      \<noteq> Some (createCanvas, Inl (ImageProcessingFailed (BelowMinimumDimensions 224)))"
  by (simp add: preprocessImage_def Let_def blankImage_def mergeOptions_def DEFAULT_OPTIONS_def
        noOptions_def)

text \<open>
  C4. With \<open>task = 'detection'\<close> no pixel filter runs, whatever the flags \<open>denoise\<close>,
  \<open>sharpen\<close> and \<open>enhanceContrast\<close> are: \<open>applyImageFilters\<close> hands the context back as
  it received it (or throws for an empty rectangle, before anything is written), and
  \<open>preprocessImage\<close> ends with a canvas that was never written by \<open>putImageData\<close> and, once
  drawn on, holds the pixels of the resized picture.
\<close>

theorem detection_skips_filters:
  "(task ro = Detection \<longrightarrow>
      applyImageFilters ctx width height ro =
        (if width = 0 \<or> height = 0 then Some (Inl IndexSizeError) else Some (Inr ctx))) \<and>
   (opt_task options = Some Detection \<longrightarrow>
      (\<exists>c r. preprocessImage env img options = Some (c, r)
         \<and> PutImageData \<notin> set (cv_ops c)
         \<and> (cv_ops c = [] \<or> cv_data c = drawnAt img (cv_width c) (cv_height c))))"
proof (intro conjI impI)
  assume "task ro = Detection"
  then show "applyImageFilters ctx width height ro =
        (if width = 0 \<or> height = 0 then Some (Inl IndexSizeError) else Some (Inr ctx))"
    by (rule applyImageFilters_detection)
next
  assume d: "opt_task options = Some Detection"
  then have t: "task (mergeOptions DEFAULT_OPTIONS options) = Detection"
    by (simp add: mergeOptions_def)
  let ?P = "\<exists>c r. preprocessImage env img options = Some (c, r)
         \<and> PutImageData \<notin> set (cv_ops c)
         \<and> (cv_ops c = [] \<or> cv_data c = drawnAt img (cv_width c) (cv_height c))"
  show ?P
  proof (cases "contextAvailable env")
    case False
    then show ?thesis
      by (simp add: preprocessImage_no_context cv_ops_createCanvas)
  next
    case True
    show ?thesis
    proof (cases "naturalWidth img < minSize (mergeOptions DEFAULT_OPTIONS options)
        \<or> naturalHeight img < minSize (mergeOptions DEFAULT_OPTIONS options)")
      case True
      with \<open>contextAvailable env\<close> show ?thesis
        by (simp add: preprocessImage_too_small cv_ops_createCanvas)
    next
      case False
      obtain w h where wh: "scaledSize (naturalWidth img) (naturalHeight img)
             (targetMaxDimension (mergeOptions DEFAULT_OPTIONS options)) = (w, h)"
        by (cases "scaledSize (naturalWidth img) (naturalHeight img)
             (targetMaxDimension (mergeOptions DEFAULT_OPTIONS options))") auto
      from False have m: "minSize (mergeOptions DEFAULT_OPTIONS options) \<le> naturalWidth img"
          "minSize (mergeOptions DEFAULT_OPTIONS options) \<le> naturalHeight img" by auto
      have ops: "cv_ops (drawImage (setSize createCanvas w h) img w h)
                   = [SetSize w h, DrawImage w h]"
        by (simp add: drawImage_def setSize_def cv_ops_createCanvas)
      have dat: "cv_data (drawImage (setSize createCanvas w h) img w h) = drawnAt img w h"
        "cv_width (drawImage (setSize createCanvas w h) img w h) = w"
        "cv_height (drawImage (setSize createCanvas w h) img w h) = h"
        by (simp_all add: drawImage_def setSize_def)
      show ?thesis
        unfolding preprocessImage_large_enough [OF True m wh] applyImageFilters_detection [OF t]
        by (simp add: ops dat)
    qed
  qed
qed

theorem detection_skips_filters_witness:
  "task (mergeOptions DEFAULT_OPTIONS detectionOptions) = Detection
   \<and> applyImageFilters (drawImage (setSize createCanvas 640 480) (blankImage 1280 960) 640 480)
        640 480 (mergeOptions DEFAULT_OPTIONS detectionOptions)
      = Some (Inr (drawImage (setSize createCanvas 640 480) (blankImage 1280 960) 640 480))
   \<and> opt_task detectionOptions = Some Detection
   \<and> map_option (cv_ops \<circ> fst) (preprocessImage browser (blankImage 1280 960) detectionOptions)
      = Some [SetSize 640 480, DrawImage 640 480]"
proof -
  have t: "task (mergeOptions DEFAULT_OPTIONS detectionOptions) = Detection"
    by (simp add: mergeOptions_def detectionOptions_def noOptions_def)
  have o: "opt_task detectionOptions = Some Detection"
    by (simp add: detectionOptions_def noOptions_def)
  from detection_skips_filters
         [of "mergeOptions DEFAULT_OPTIONS detectionOptions"
             "drawImage (setSize createCanvas 640 480) (blankImage 1280 960) 640 480" 640 480] t
  have 1: "applyImageFilters (drawImage (setSize createCanvas 640 480) (blankImage 1280 960) 640 480)
        640 480 (mergeOptions DEFAULT_OPTIONS detectionOptions)
      = Some (Inr (drawImage (setSize createCanvas 640 480) (blankImage 1280 960) 640 480))"
    by simp
  have 2: "map_option (cv_ops \<circ> fst) (preprocessImage browser (blankImage 1280 960) detectionOptions)
      = Some [SetSize 640 480, DrawImage 640 480]"
    by (simp add: example_defs cv_ops_createCanvas)
  from t 1 o 2 show ?thesis by blast
qed

lemma scaled_quotient_le:
  fixes a b m :: nat
  assumes "m \<le> b" "0 < b"
  shows "(of_nat (a * m) / of_nat b :: rat) \<le> of_nat a"
proof -
  have "a * m \<le> a * b" using assms(1) by simp
  then have "(of_nat (a * m) :: rat) \<le> of_nat (a * b)"
    by (simp only: of_nat_le_iff)
  moreover have "(0 :: rat) < of_nat b" using assms(2) by simp
  ultimately have "(of_nat (a * m) / of_nat b :: rat) \<le> of_nat (a * b) / of_nat b"
    by (rule divide_right_mono [OF _ less_imp_le])
  also have "\<dots> = of_nat a" using assms(2) by simp
  finally show ?thesis .
qed

lemma nat_round_scaled_le:
  fixes a b m :: nat
  assumes "m \<le> b" "0 < b"
  shows "nat (Math_round (of_nat (a * m) / of_nat b)) \<le> a"
proof -
  have "Math_round (of_nat (a * m) / of_nat b) \<le> int a"
    using scaled_quotient_le [OF assms, of a] by (intro Math_round_le) simp
  then show ?thesis by simp
qed

lemma scaledSize_props:
  assumes "scaledSize w h T = (w', h')"
  shows "(w \<le> T \<and> h \<le> T \<longrightarrow> w' = w \<and> h' = h)"
    and "(T < w \<or> T < h) \<and> h < w \<longrightarrow>
           w' = T \<and> int h' = Math_round (of_nat (h * T) / of_nat w)"
    and "(T < w \<or> T < h) \<and> \<not> h < w \<longrightarrow>
           h' = T \<and> int w' = Math_round (of_nat (w * T) / of_nat h)"
    and "w' \<le> w \<and> h' \<le> h"
proof -
  show "(w \<le> T \<and> h \<le> T \<longrightarrow> w' = w \<and> h' = h)"
    using assms by (auto simp: scaledSize_def)
  show "(T < w \<or> T < h) \<and> h < w \<longrightarrow>
           w' = T \<and> int h' = Math_round (of_nat (h * T) / of_nat w)"
    using assms by (auto simp: scaledSize_def Math_round_nonneg)
  show "(T < w \<or> T < h) \<and> \<not> h < w \<longrightarrow>
           h' = T \<and> int w' = Math_round (of_nat (w * T) / of_nat h)"
    using assms by (auto simp: scaledSize_def Math_round_nonneg)
  show "w' \<le> w \<and> h' \<le> h"
  proof (cases "T < w \<or> T < h")
    case False
    then show ?thesis using assms by (auto simp: scaledSize_def)
  next
    case True
    show ?thesis
    proof (cases "h < w")
      case True
      with \<open>T < w \<or> T < h\<close> have "T \<le> w" "0 < w" by auto
      from nat_round_scaled_le [OF this, of h] True \<open>T < w \<or> T < h\<close> assms
      show ?thesis by (auto simp: scaledSize_def)
    next
      case False
      with \<open>T < w \<or> T < h\<close> have "T \<le> h" "0 < h" by auto
      from nat_round_scaled_le [OF this, of w] False \<open>T < w \<or> T < h\<close> assms
      show ?thesis by (auto simp: scaledSize_def)
    qed
  qed
qed

lemma outputSize_Some:
  assumes "outputSize (preprocessImage env img options) = Some (w', h')"
  shows "scaledSize (naturalWidth img) (naturalHeight img)
           (targetMaxDimension (mergeOptions DEFAULT_OPTIONS options)) = (w', h')"
proof -
  from assms obtain c out where r: "preprocessImage env img options = Some (c, Inr out)"
    and o: "p_width out = w'" "p_height out = h'"
    by (auto simp: outputSize_def split: option.splits sum.splits prod.splits)
  from preprocessImage_resolved_value [OF r] o show ?thesis by simp
qed

text \<open>
  C5. \<open>preprocessImage\<close> only scales down, against the target \<open>targetMaxDimension\<close>
  (800 for the provider \<open>huggingface\<close>, \<open>min(640, maxSize)\<close> for the task \<open>detection\<close>,
  else \<open>maxSize\<close>): where both natural sides are at most the target, the result has the
  natural size; otherwise the longer side becomes the target and the other side is the
  scaled quotient rounded to the nearest integer (at most one half away from it). No side
  grows.
\<close>

theorem preprocessImage_scales_down:
  "outputSize (preprocessImage env img options) = Some (w', h') \<Longrightarrow>
     (naturalWidth img \<le> targetMaxDimension (mergeOptions DEFAULT_OPTIONS options)
        \<and> naturalHeight img \<le> targetMaxDimension (mergeOptions DEFAULT_OPTIONS options)
      \<longrightarrow> w' = naturalWidth img \<and> h' = naturalHeight img) \<and>
     ((targetMaxDimension (mergeOptions DEFAULT_OPTIONS options) < naturalWidth img
        \<or> targetMaxDimension (mergeOptions DEFAULT_OPTIONS options) < naturalHeight img)
        \<and> naturalHeight img < naturalWidth img
      \<longrightarrow> w' = targetMaxDimension (mergeOptions DEFAULT_OPTIONS options)
          \<and> int h' = Math_round
                (of_nat (naturalHeight img * targetMaxDimension (mergeOptions DEFAULT_OPTIONS options))
                   / of_nat (naturalWidth img))
          \<and> \<bar>of_nat h'
               - of_nat (naturalHeight img * targetMaxDimension (mergeOptions DEFAULT_OPTIONS options))
                   / (of_nat (naturalWidth img) :: rat)\<bar> \<le> 1 / 2) \<and>
     ((targetMaxDimension (mergeOptions DEFAULT_OPTIONS options) < naturalWidth img
        \<or> targetMaxDimension (mergeOptions DEFAULT_OPTIONS options) < naturalHeight img)
        \<and> naturalWidth img \<le> naturalHeight img
      \<longrightarrow> h' = targetMaxDimension (mergeOptions DEFAULT_OPTIONS options)
          \<and> int w' = Math_round
                (of_nat (naturalWidth img * targetMaxDimension (mergeOptions DEFAULT_OPTIONS options))
                   / of_nat (naturalHeight img))
          \<and> \<bar>of_nat w'
               - of_nat (naturalWidth img * targetMaxDimension (mergeOptions DEFAULT_OPTIONS options))
                   / (of_nat (naturalHeight img) :: rat)\<bar> \<le> 1 / 2) \<and>
     w' \<le> naturalWidth img \<and> h' \<le> naturalHeight img"
proof -
  assume a: "outputSize (preprocessImage env img options) = Some (w', h')"
  note s = scaledSize_props [OF outputSize_Some [OF a]]
  have n: "int k = Math_round q \<Longrightarrow> \<bar>of_nat k - q\<bar> \<le> 1 / 2" for k q
    using Math_round_near [of q] by (metis of_int_of_nat_eq)
  show ?thesis
    using s n by (auto simp: not_less)
qed

theorem preprocessImage_scales_down_witness:
  "outputSize (preprocessImage browser (blankImage 1280 960) detectionOptions) = Some (640, 480)
   \<and> targetMaxDimension (mergeOptions DEFAULT_OPTIONS detectionOptions) = 640
   \<and> naturalHeight (blankImage 1280 960) < naturalWidth (blankImage 1280 960)
   \<and> Math_round (of_nat (960 * 640) / of_nat 1280) = 480
   \<and> outputSize (preprocessImage browser (blankImage 600 400) detectionOptions) = Some (600, 400)"
proof -
  have 1: "outputSize (preprocessImage browser (blankImage 1280 960) detectionOptions)
             = Some (640, 480)"
    by (simp add: example_defs outputSize_def)
  have 2: "outputSize (preprocessImage browser (blankImage 600 400) detectionOptions)
             = Some (600, 400)"
    by (simp add: example_defs outputSize_def)
  have t: "targetMaxDimension (mergeOptions DEFAULT_OPTIONS detectionOptions) = 640"
    by (simp add: targetMaxDimension_def mergeOptions_def DEFAULT_OPTIONS_def
          detectionOptions_def noOptions_def)
  have d: "naturalHeight (blankImage 1280 960) = 960" "naturalWidth (blankImage 1280 960) = 1280"
    by (simp_all add: blankImage_def)
  from preprocessImage_scales_down [OF 1] t d
  have "int 480 = Math_round (of_nat (960 * 640) / of_nat 1280)" by simp
  with 1 2 t d show ?thesis by simp
qed

text \<open>
  C6. The claim: quality 1.0 and PNG whenever the provider is \<open>huggingface\<close> or the task
  is \<open>detection\<close>, else the configured quality and format. The source takes the quality so,
  but the format from the provider alone: the data URL of a resolved call has quality 1 for
  the provider \<open>huggingface\<close> or the task \<open>detection\<close> and the configured quality (0.9
  unless given) otherwise, and it is PNG for the provider \<open>huggingface\<close> and has the
  configured format (JPEG unless given) otherwise.
\<close>

theorem preprocessImage_encoding:
  "encodingOf (preprocessImage env img options) = Some (fmt, q) \<Longrightarrow>
     q = (if provider (mergeOptions DEFAULT_OPTIONS options) = Some Huggingface
             \<or> task (mergeOptions DEFAULT_OPTIONS options) = Detection
          then 1 else quality (mergeOptions DEFAULT_OPTIONS options)) \<and>
     fmt = (if provider (mergeOptions DEFAULT_OPTIONS options) = Some Huggingface
            then ImagePng else format (mergeOptions DEFAULT_OPTIONS options)) \<and>
     (opt_quality options = None \<longrightarrow> quality (mergeOptions DEFAULT_OPTIONS options) = 9 / 10) \<and>
     (opt_format options = None \<longrightarrow> format (mergeOptions DEFAULT_OPTIONS options) = ImageJpeg)"
proof -
  assume a: "encodingOf (preprocessImage env img options) = Some (fmt, q)"
  then obtain c out where r: "preprocessImage env img options = Some (c, Inr out)"
    and o: "url_format (p_dataUrl out) = fmt" "url_quality (p_dataUrl out) = q"
    by (auto simp: encodingOf_def split: option.splits sum.splits prod.splits)
  from preprocessImage_resolved_value [OF r] o show ?thesis
    by (simp add: mergeOptions_def DEFAULT_OPTIONS_def)
qed

theorem preprocessImage_encoding_witness:
  "encodingOf (preprocessImage browser (blankImage 1280 960)
                 (detectionOptions\<lparr>opt_provider := Some Huggingface\<rparr>)) = Some (ImagePng, 1)
   \<and> provider (mergeOptions DEFAULT_OPTIONS (detectionOptions\<lparr>opt_provider := Some Huggingface\<rparr>))
       = Some Huggingface"
proof -
  have 1: "encodingOf (preprocessImage browser (blankImage 1280 960)
                 (detectionOptions\<lparr>opt_provider := Some Huggingface\<rparr>)) = Some (ImagePng, 1)"
    by (simp add: example_defs encodingOf_def)
  have 2: "provider (mergeOptions DEFAULT_OPTIONS
                (detectionOptions\<lparr>opt_provider := Some Huggingface\<rparr>)) = Some Huggingface"
    by (simp add: mergeOptions_def detectionOptions_def noOptions_def)
  from preprocessImage_encoding [OF 1] 1 2 show ?thesis
    by simp
qed

theorem preprocessImage_encoding_counterexample:
  "task (mergeOptions DEFAULT_OPTIONS detectionOptions) = Detection
   \<and> encodingOf (preprocessImage browser (blankImage 1280 960) detectionOptions)
       = Some (ImageJpeg, 1)
   \<and> encodingOf (preprocessImage browser (blankImage 1280 960) detectionOptions)
       \<noteq> Some (ImagePng, 1)"
  by (simp add: example_defs encodingOf_def)

section \<open>Properties of the in-flight flag\<close>

lemma step_invariant:
  assumes "isModelLoading s = (0 < detectInFlight s)" "detectInFlight s \<le> 1"
    and "step s e = Some s'"
  shows "isModelLoading s' = (0 < detectInFlight s') \<and> detectInFlight s' \<le> 1"
  using assms
  by (cases e)
     (auto simp: detectObjects_enter_def detectObjects_settle_def classifyImage_enter_def
        classifyImage_settle_def split: if_splits)

lemma run_invariant:
  "isModelLoading s = (0 < detectInFlight s) \<Longrightarrow> detectInFlight s \<le> 1 \<Longrightarrow>
   run s es = Some s' \<Longrightarrow>
   isModelLoading s' = (0 < detectInFlight s') \<and> detectInFlight s' \<le> 1"
proof (induction es arbitrary: s)
  case Nil
  then show ?case by simp
next
  case (Cons e es)
  from Cons.prems(3) obtain s1 where s1: "step s e = Some s1" and r: "run s1 es = Some s'"
    by (auto split: option.splits)
  from step_invariant [OF Cons.prems(1,2) s1]
  have a: "isModelLoading s1 = (0 < detectInFlight s1)" and b: "detectInFlight s1 \<le> 1"
    by simp_all
  show ?case by (rule Cons.IH [OF a b r])
qed

text \<open>
  Whatever calls were made and settled before: while a call of \<open>detectObjects\<close> is in
  flight the flag is set, and a call of \<open>detectObjects\<close> that finds the flag set throws the
  busy error and leaves the module state as it was.
\<close>

lemma second_detectObjects_is_busy:
  assumes "run initialState es = Some s"
  shows "0 < detectInFlight s \<longrightarrow> isModelLoading s"
    and "isModelLoading s \<longrightarrow> detectObjects_enter s = (s, Thrown AnotherRecognitionInProgress)"
proof -
  have "isModelLoading initialState = (0 < detectInFlight initialState)"
    "detectInFlight initialState \<le> 1"
    by (simp_all add: initialState_def)
  from run_invariant [OF this assms] show "0 < detectInFlight s \<longrightarrow> isModelLoading s"
    by simp
  show "isModelLoading s \<longrightarrow> detectObjects_enter s = (s, Thrown AnotherRecognitionInProgress)"
    by (simp add: detectObjects_enter_def)
qed

text \<open>
  C9. The claim: while the in-flight flag is set, a second inference request fails at once
  with the busy error. \<open>detectObjects\<close> does (\<open>second_detectObjects_is_busy\<close>);
  \<open>classifyImage\<close> does not test the flag: after a call of \<open>detectObjects\<close> has set it, a
  call of \<open>classifyImage\<close> goes on to its first \<open>await\<close>.
\<close>

theorem classifyImage_ignores_flag:
  "run initialState [CallDetectObjects]
     = Some \<lparr>isModelLoading = True, detectInFlight = 1, classifyInFlight = 0\<rparr>
   \<and> classifyImage_enter \<lparr>isModelLoading = True, detectInFlight = 1, classifyInFlight = 0\<rparr>
       = (\<lparr>isModelLoading = True, detectInFlight = 1, classifyInFlight = 1\<rparr>, Awaiting)
   \<and> snd (classifyImage_enter \<lparr>isModelLoading = True, detectInFlight = 1, classifyInFlight = 0\<rparr>)
       \<noteq> Thrown AnotherRecognitionInProgress"
  by (simp add: initialState_def detectObjects_enter_def classifyImage_enter_def)

section \<open>Properties of the pixel filters\<close>

lemma fold_update_other:
  "i \<notin> f ` set ps \<Longrightarrow> fold (\<lambda>p r. r[f p := v p]) ps res ! i = res ! i"
  by (induction ps arbitrary: res) auto

lemma fold_update_length [simp]:
  "length (fold (\<lambda>p r. r[f p := v p]) ps res) = length res"
  by (induction ps arbitrary: res) auto

lemma fold_update_at:
  "p \<in> set ps \<Longrightarrow> inj_on f (set ps) \<Longrightarrow> f p < length res \<Longrightarrow>
   fold (\<lambda>p r. r[f p := v p]) ps res ! f p = v p"
proof (induction ps arbitrary: res)
  case Nil
  then show ?case by simp
next
  case (Cons q ps)
  show ?case
  proof (cases "p \<in> set ps")
    case True
    from Cons.prems(2) have "inj_on f (set ps)" by (simp add: inj_on_def)
    from Cons.IH [OF True this] Cons.prems(3) show ?thesis by simp
  next
    case False
    with Cons.prems(1) have pq: "p = q" by simp
    from False Cons.prems(2) pq have "f p \<notin> f ` set ps" by (auto simp: inj_on_def)
    from fold_update_other [OF this, of v "res[f q := v q]"] Cons.prems(3) pq
    show ?thesis by simp
  qed
qed

lemma fold_nested:
  "fold (\<lambda>y. fold (\<lambda>x. g y x) xs) ys = fold (\<lambda>(y, x). g y x) (List.product ys xs)"
proof (induction ys)
  case Nil
  show ?case by simp
next
  case (Cons y ys)
  have "fold (\<lambda>(y, x). g y x) (map (Pair y) xs) = fold (g y) xs"
    by (simp add: fold_map comp_def)
  with Cons show ?case by (simp add: comp_def)
qed

lemma pixel_index_unique:
  fixes x x' y y' w :: nat
  assumes "x < w" "x' < w" "y * w + x = y' * w + x'"
  shows "y = y' \<and> x = x'"
proof -
  from assms have "(y * w + x) div w = (y' * w + x') div w" by simp
  with assms(1,2) have "y = y'" by simp
  with assms(3) show ?thesis by simp
qed

lemma applyMedianFilter_eq:
  "applyMedianFilter grayscale width height radius isDetection =
     fold (\<lambda>p r. r[fst p * width + snd p :=
                    median (neighbourhood grayscale width (if isDetection then 1 else radius) (snd p) (fst p))])
       (List.product [(if isDetection then 1 else radius)..<height - (if isDetection then 1 else radius)]
                     [(if isDetection then 1 else radius)..<width - (if isDetection then 1 else radius)])
       grayscale"
  unfolding applyMedianFilter_def Let_def fold_nested
  by (simp add: case_prod_unfold)

lemma applySharpeningFilter_eq:
  "applySharpeningFilter grayscale width height isDetection =
     fold (\<lambda>p r. r[fst p * width + snd p :=
                    toUint8Clamped (max 0 (min 255
                      (convolve3 (sharpenKernel isDetection) grayscale width (snd p) (fst p))))])
       (List.product [1..<height - 1] [1..<width - 1])
       grayscale"
  unfolding applySharpeningFilter_def Let_def fold_nested
  by (simp add: case_prod_unfold)

lemma border_not_written:
  fixes x y w h r :: nat
  assumes "x < w" "x < r \<or> w \<le> x + r \<or> y < r \<or> h \<le> y + r"
  shows "y * w + x \<notin> (\<lambda>p. fst p * w + snd p) ` set (List.product [r..<h - r] [r..<w - r])"
proof
  assume "y * w + x \<in> (\<lambda>p. fst p * w + snd p) ` set (List.product [r..<h - r] [r..<w - r])"
  then obtain y' x' where m: "r \<le> y'" "y' < h - r" "r \<le> x'" "x' < w - r"
    and e: "y * w + x = y' * w + x'"
    by auto
  from m have "x' < w" by simp
  from pixel_index_unique [OF assms(1) this e] have "y = y'" "x = x'" by simp_all
  with m assms(2) show False by auto
qed

text \<open>
  C7. For every grayscale buffer and every pixel \<open>(x, y)\<close> of the image,
  \<open>applyMedianFilter\<close> leaves the pixel as it was when it is within \<open>filterRadius\<close> of an
  edge (\<open>filterRadius\<close> is 1 in detection mode, else the radius given), and
  \<open>applySharpeningFilter\<close> leaves it as it was when it is within 1 of an edge; both return
  a buffer of the same length.
\<close>

theorem filters_leave_border:
  "x < width \<Longrightarrow> y < height \<Longrightarrow>
   (x < (if isDetection then 1 else radius) \<or> width \<le> x + (if isDetection then 1 else radius)
      \<or> y < (if isDetection then 1 else radius) \<or> height \<le> y + (if isDetection then 1 else radius)
    \<longrightarrow> applyMedianFilter grayscale width height radius isDetection ! (y * width + x)
          = grayscale ! (y * width + x)) \<and>
   (x < 1 \<or> width \<le> x + 1 \<or> y < 1 \<or> height \<le> y + 1
    \<longrightarrow> applySharpeningFilter grayscale width height isDetection ! (y * width + x)
          = grayscale ! (y * width + x)) \<and>
   length (applyMedianFilter grayscale width height radius isDetection) = length grayscale \<and>
   length (applySharpeningFilter grayscale width height isDetection) = length grayscale"
proof (intro conjI impI)
  assume x: "x < width"
  {
    assume "x < (if isDetection then 1 else radius) \<or> width \<le> x + (if isDetection then 1 else radius)
      \<or> y < (if isDetection then 1 else radius) \<or> height \<le> y + (if isDetection then 1 else radius)"
    from border_not_written [OF x this]
    show "applyMedianFilter grayscale width height radius isDetection ! (y * width + x)
          = grayscale ! (y * width + x)"
      unfolding applyMedianFilter_eq by (rule fold_update_other)
  }
  {
    assume "x < 1 \<or> width \<le> x + 1 \<or> y < 1 \<or> height \<le> y + 1"
    from border_not_written [OF x this]
    show "applySharpeningFilter grayscale width height isDetection ! (y * width + x)
          = grayscale ! (y * width + x)"
      unfolding applySharpeningFilter_eq by (rule fold_update_other)
  }
  show "length (applyMedianFilter grayscale width height radius isDetection) = length grayscale"
    unfolding applyMedianFilter_eq by (rule fold_update_length)
  show "length (applySharpeningFilter grayscale width height isDetection) = length grayscale"
    unfolding applySharpeningFilter_eq by (rule fold_update_length)
qed

theorem filters_leave_border_witness:
  "(0 :: nat) < 4 \<and> (2 :: nat) < 4 \<and> (0 :: nat) < (if False then 1 else 1)
   \<and> applyMedianFilter sampleLuminance 4 4 1 False ! (2 * 4 + 0) = sampleLuminance ! (2 * 4 + 0)
   \<and> applySharpeningFilter sampleLuminance 4 4 False ! (2 * 4 + 0) = sampleLuminance ! (2 * 4 + 0)
   \<and> sampleLuminance ! (2 * 4 + 0) = 200
   \<and> applyMedianFilter sampleLuminance 4 4 1 False ! (2 * 4 + 1) = 11
   \<and> sampleLuminance ! (2 * 4 + 1) = 10"
proof -
  have s: "sampleLuminance ! (2 * 4 + 0) = 200" "sampleLuminance ! (2 * 4 + 1) = 10"
    by (simp_all add: sampleLuminance_def)
  have m: "applyMedianFilter sampleLuminance 4 4 1 False ! (2 * 4 + 1) = 11"
    by code_simp
  from filters_leave_border [of 0 4 2 4 False 1 sampleLuminance] s m
  show ?thesis by simp
qed


lemma toUint8Clamped_of_nat: "c \<le> 255 \<Longrightarrow> toUint8Clamped (of_nat c) = c"
  by (auto simp: toUint8Clamped_def Let_def)







lemma enhancePixel_length [simp]: "length (enhancePixel grayscale p d) = length d"
  by (simp add: enhancePixel_def Let_def)







section \<open>Properties of the adaptive contrast\<close>

lemma pixel_index_bound:
  fixes x y w h :: nat
  assumes "x < w" "y < h"
  shows "y * w + x < w * h"
proof -
  have "y * w + x < Suc y * w" using assms(1) by simp
  also have "\<dots> \<le> h * w" using assms(2) by (simp only: Suc_leI mult_le_mono1)
  finally show ?thesis by (simp add: mult.commute)
qed

lemma calculateBlockStats_eq:
  "calculateBlockStats grayscale width bx by blockWidth blockHeight =
     fold (\<lambda>p (s, mn, mx). let v = grayscale ! tileIndex width bx by p
                             in (s + v, min mn v, max mx v))
          (List.product [0..<blockHeight] [0..<blockWidth]) (0, 255, 0)"
  unfolding calculateBlockStats_def fold_nested tileIndex_def
  by (simp add: case_prod_unfold)

lemma enhanceBlockContrast_eq:
  "enhanceBlockContrast grayscale result width bx by blockWidth blockHeight mean scale =
     fold (\<lambda>p r. r[tileIndex width bx by p :=
                    toUint8Clamped (max 0 (min 255
                      (mean + scale * (of_nat (grayscale ! tileIndex width bx by p) - mean))))])
          (List.product [0..<blockHeight] [0..<blockWidth]) result"
  unfolding enhanceBlockContrast_def fold_nested tileIndex_def Let_def
  by (simp add: case_prod_unfold)

lemma stats_uniform:
  assumes "\<forall>p \<in> set ps. f p = c"
  shows "fold (\<lambda>p (s, mn, mx). let v = f p in (s + v, min mn v, max mx v)) ps (s0, mn0, mx0) =
           (s0 + length ps * c,
            if ps = [] then mn0 else min mn0 c,
            if ps = [] then mx0 else max mx0 c)"
  using assms
proof (induction ps arbitrary: s0 mn0 mx0)
  case Nil
  show ?case by simp
next
  case (Cons p ps)
  then have "f p = c" "\<forall>p \<in> set ps. f p = c" by simp_all
  with Cons.IH [OF this(2)] show ?case
    by (cases "ps = []") (simp_all add: Let_def min.assoc max.assoc)
qed

lemma calculateBlockStats_uniform:
  assumes pos: "0 < bw" "0 < bh"
    and u: "\<forall>y < bh. \<forall>x < bw. grayscale ! ((by + y) * width + (bx + x)) = c"
    and c: "c \<le> 255"
  shows "calculateBlockStats grayscale width bx by bw bh = (bh * bw * c, c, c)"
proof -
  let ?ps = "List.product [0..<bh] [0..<bw]"
  from pos have "length ?ps \<noteq> 0" by simp
  then have ne: "?ps \<noteq> []" by (simp only: length_0_conv) simp
  have all: "\<forall>p \<in> set ?ps. grayscale ! tileIndex width bx by p = c"
    using u by (auto simp: tileIndex_def)
  show ?thesis
    unfolding calculateBlockStats_eq Let_def
    using stats_uniform [OF all, of 0 255 0] ne c
    by (simp add: Let_def min_def max_def)
qed

lemma tileIndex_inj:
  assumes "bx + bw \<le> width"
  shows "inj_on (tileIndex width bx by) (set (List.product [0..<bh] [0..<bw]))"
proof (rule inj_onI)
  fix p q
  assume p: "p \<in> set (List.product [0..<bh] [0..<bw])"
    and q: "q \<in> set (List.product [0..<bh] [0..<bw])"
    and e: "tileIndex width bx by p = tileIndex width bx by q"
  from p q assms have a: "bx + snd p < width" and b: "bx + snd q < width" by auto
  from e have "(by + fst p) * width + (bx + snd p) = (by + fst q) * width + (bx + snd q)"
    by (simp add: tileIndex_def)
  from pixel_index_unique [OF a b this] show "p = q" by (simp add: prod_eq_iff)
qed

lemma enhanceTile_length [simp]:
  "length (enhanceTile grayscale width height blockSize contrastLimit by bx result) = length result"
  by (simp add: enhanceTile_def enhanceBlockContrast_eq Let_def split: prod.splits)

text \<open>A tile writes only its own pixels.\<close>

lemma enhanceTile_other:
  assumes "X < width" "bx < width"
    and "\<not> (bx \<le> X \<and> X < bx + min blockSize (width - bx)
            \<and> by \<le> Y \<and> Y < by + min blockSize (height - by))"
  shows "enhanceTile grayscale width height blockSize contrastLimit by bx result ! (Y * width + X)
           = result ! (Y * width + X)"
proof -
  let ?bw = "min blockSize (width - bx)" and ?bh = "min blockSize (height - by)"
  have "Y * width + X \<notin> tileIndex width bx by ` set (List.product [0..<?bh] [0..<?bw])"
  proof
    assume "Y * width + X \<in> tileIndex width bx by ` set (List.product [0..<?bh] [0..<?bw])"
    then obtain y x where m: "y < ?bh" "x < ?bw" and e: "Y * width + X = (by + y) * width + (bx + x)"
      by (auto simp: tileIndex_def)
    from m(2) assms(2) have "bx + x < width" by linarith
    from pixel_index_unique [OF assms(1) this e] have "Y = by + y" "X = bx + x" by simp_all
    with m assms(3) show False by simp
  qed
  note other = fold_update_other [OF this]
  obtain s mn mx where st: "calculateBlockStats grayscale width bx by ?bw ?bh = (s, mn, mx)"
    by (cases "calculateBlockStats grayscale width bx by ?bw ?bh") auto
  show ?thesis
    unfolding enhanceTile_def Let_def st prod.case enhanceBlockContrast_eq
    by (rule other)
qed

text \<open>A tile of equal luminances is written back as it was.\<close>

lemma enhanceTile_uniform:
  assumes "bx < width" "by < height" "0 < blockSize"
    and len: "length result = width * height"
    and u: "\<forall>y < min blockSize (height - by). \<forall>x < min blockSize (width - bx).
              grayscale ! ((by + y) * width + (bx + x)) = c"
    and c: "c \<le> 255"
    and y: "y < min blockSize (height - by)" and x: "x < min blockSize (width - bx)"
  shows "enhanceTile grayscale width height blockSize contrastLimit by bx result
           ! ((by + y) * width + (bx + x)) = c"
proof -
  let ?bw = "min blockSize (width - bx)" and ?bh = "min blockSize (height - by)"
  let ?ps = "List.product [0..<?bh] [0..<?bw]"
  from assms(1-3) have pos: "0 < ?bw" "0 < ?bh" by simp_all
  have all: "\<forall>p \<in> set ?ps. grayscale ! tileIndex width bx by p = c"
    using u by (auto simp: tileIndex_def)
  have stats: "calculateBlockStats grayscale width bx by ?bw ?bh = (?bh * ?bw * c, c, c)"
    by (rule calculateBlockStats_uniform [OF pos u c])
  have n0: "(of_nat (?bw * ?bh) :: rat) \<noteq> 0"
    using pos by simp
  have mean: "(of_nat (?bh * ?bw * c) / of_nat (?bw * ?bh) :: rat) = of_nat c"
    using n0 by (simp add: mult.commute)
  have p: "(y, x) \<in> set ?ps" using x y by simp
  have inj: "inj_on (tileIndex width bx by) (set ?ps)"
    by (rule tileIndex_inj) (use assms(1) in simp)
  from x assms(1) have "bx + x < width" by linarith
  moreover from y assms(2) have "by + y < height" by linarith
  ultimately have "(by + y) * width + (bx + x) < width * height"
    by (rule pixel_index_bound)
  then have bound: "tileIndex width bx by (y, x) < length result"
    by (simp add: tileIndex_def len)
  have g: "grayscale ! tileIndex width bx by (y, x) = c"
    using all p by blast
  have "enhanceTile grayscale width height blockSize contrastLimit by bx result
          ! tileIndex width bx by (y, x)
        = toUint8Clamped (max 0 (min 255 (of_nat c + contrastLimit * (of_nat c - of_nat c))))"
    unfolding enhanceTile_def Let_def stats enhanceBlockContrast_eq prod.case mean
    using fold_update_at [OF p inj bound] g by simp
  also have "\<dots> = c" using c by (simp add: toUint8Clamped_of_nat)
  finally show ?thesis by (simp add: tileIndex_def)
qed


lemma tileColumns_returns:
  "0 < blockSize \<Longrightarrow>
   \<exists>r. tileColumns grayscale width height blockSize contrastLimit by bx result = Some r
       \<and> length r = length result"
proof (induction grayscale width height blockSize contrastLimit "by" bx result
       rule: tileColumns.induct)
  case (1 grayscale width height blockSize contrastLimit "by" bx result)
  show ?case
  proof (cases "bx < width")
    case True
    with "1.prems" "1.IH" show ?thesis
      by (subst tileColumns.simps) simp
  next
    case False
    then show ?thesis by (subst tileColumns.simps) simp
  qed
qed

text \<open>The tiles of a row from column \<open>bx\<close> on write only in that row and from that column on.\<close>

lemma tileColumns_other:
  "tileColumns grayscale width height blockSize contrastLimit by bx result = Some r \<Longrightarrow>
   X < width \<Longrightarrow>
   X < bx \<or> Y < by \<or> by + min blockSize (height - by) \<le> Y \<Longrightarrow>
   r ! (Y * width + X) = result ! (Y * width + X)"
proof (induction grayscale width height blockSize contrastLimit "by" bx result
       rule: tileColumns.induct)
  case (1 grayscale width height blockSize contrastLimit "by" bx result)
  show ?case
  proof (cases "bx < width")
    case False
    with "1.prems"(1) show ?thesis by (subst (asm) tileColumns.simps) simp
  next
    case True
    let ?res1 = "enhanceTile grayscale width height blockSize contrastLimit by bx result"
    from "1.prems"(1) True have bs: "blockSize \<noteq> 0"
      and rec: "tileColumns grayscale width height blockSize contrastLimit by (bx + blockSize) ?res1
                  = Some r"
      by (subst (asm) tileColumns.simps, simp split: if_splits)+
    from "1.prems"(3) have far: "X < bx + blockSize \<or> Y < by \<or> by + min blockSize (height - by) \<le> Y"
      by auto
    have "r ! (Y * width + X) = ?res1 ! (Y * width + X)"
      by (rule "1.IH" [OF True bs rec "1.prems"(2) far])
    also have "\<dots> = result ! (Y * width + X)"
      by (rule enhanceTile_other [OF "1.prems"(2) True]) (use "1.prems"(3) in auto)
    finally show ?thesis .
  qed
qed

lemma tileColumns_uniform:
  "tileColumns grayscale width height blockSize contrastLimit by bx' result = Some r \<Longrightarrow>
   bx' \<le> bx \<Longrightarrow> blockSize dvd (bx - bx') \<Longrightarrow> bx < width \<Longrightarrow> by < height \<Longrightarrow>
   length result = width * height \<Longrightarrow>
   \<forall>y < min blockSize (height - by). \<forall>x < min blockSize (width - bx).
      grayscale ! ((by + y) * width + (bx + x)) = c \<Longrightarrow>
   c \<le> 255 \<Longrightarrow> y < min blockSize (height - by) \<Longrightarrow> x < min blockSize (width - bx) \<Longrightarrow>
   r ! ((by + y) * width + (bx + x)) = c"
proof (induction grayscale width height blockSize contrastLimit "by" bx' result
       rule: tileColumns.induct)
  case (1 grayscale width height blockSize contrastLimit "by" bx' result)
  from "1.prems"(2,4) have lt: "bx' < width" by simp
  let ?res1 = "enhanceTile grayscale width height blockSize contrastLimit by bx' result"
  from "1.prems"(1) lt have bs: "blockSize \<noteq> 0"
    and rec: "tileColumns grayscale width height blockSize contrastLimit by (bx' + blockSize) ?res1
                = Some r"
    by (subst (asm) tileColumns.simps, simp split: if_splits)+
  from "1.prems"(10,4) have xw: "bx + x < width" by linarith
  show ?case
  proof (cases "bx' = bx")
    case True
    from "1.prems"(10) have "bx + x < bx + blockSize" by simp
    then have "r ! ((by + y) * width + (bx + x)) = ?res1 ! ((by + y) * width + (bx + x))"
      using tileColumns_other [OF rec xw, of "by + y"] True by simp
    also have "\<dots> = c"
      unfolding True
      by (rule enhanceTile_uniform [OF "1.prems"(4,5) _ "1.prems"(6,7,8,9,10)]) (use bs in simp)
    finally show ?thesis .
  next
    case False
    with "1.prems"(2) have "0 < bx - bx'" by simp
    with "1.prems"(3) have "blockSize \<le> bx - bx'" by (simp add: dvd_imp_le)
    with "1.prems"(2) have le: "bx' + blockSize \<le> bx" by linarith
    from dvd_diff_nat [OF "1.prems"(3) dvd_refl]
    have dv: "blockSize dvd (bx - (bx' + blockSize))"
      by (simp only: diff_diff_left)
    have len: "length ?res1 = width * height" using "1.prems"(6) by simp
    show ?thesis
      by (rule "1.IH" [OF lt bs rec le dv "1.prems"(4,5) len "1.prems"(7,8,9,10)])
  qed
qed

lemma tileRows_returns:
  "0 < blockSize \<Longrightarrow>
   \<exists>r. tileRows grayscale width height blockSize contrastLimit by result = Some r
       \<and> length r = length result"
proof (induction grayscale width height blockSize contrastLimit "by" result
       rule: tileRows.induct)
  case (1 grayscale width height blockSize contrastLimit "by" result)
  show ?case
  proof (cases "by < height")
    case False
    then show ?thesis by (subst tileRows.simps) simp
  next
    case True
    from tileColumns_returns [OF "1.prems", of grayscale width height contrastLimit "by" 0 result]
    obtain r1 where c: "tileColumns grayscale width height blockSize contrastLimit by 0 result = Some r1"
      and l: "length r1 = length result" by blast
    from "1.prems" have bs: "blockSize \<noteq> 0" by simp
    from "1.IH" [OF True c bs "1.prems"] l True c bs show ?thesis
      by (subst tileRows.simps) simp
  qed
qed

lemma tileRows_other:
  "tileRows grayscale width height blockSize contrastLimit by result = Some r \<Longrightarrow>
   X < width \<Longrightarrow> Y < by \<Longrightarrow>
   r ! (Y * width + X) = result ! (Y * width + X)"
proof (induction grayscale width height blockSize contrastLimit "by" result
       rule: tileRows.induct)
  case (1 grayscale width height blockSize contrastLimit "by" result)
  show ?case
  proof (cases "by < height")
    case False
    with "1.prems"(1) show ?thesis by (subst (asm) tileRows.simps) simp
  next
    case True
    from "1.prems"(1) True obtain r1
      where c: "tileColumns grayscale width height blockSize contrastLimit by 0 result = Some r1"
        and bs: "blockSize \<noteq> 0"
        and rec: "tileRows grayscale width height blockSize contrastLimit (by + blockSize) r1 = Some r"
      by (subst (asm) tileRows.simps) (auto split: option.splits if_splits)
    from "1.prems"(3) have "Y < by + blockSize" by simp
    from "1.IH" [OF True c bs rec "1.prems"(2) this]
    have "r ! (Y * width + X) = r1 ! (Y * width + X)" .
    also have "\<dots> = result ! (Y * width + X)"
      by (rule tileColumns_other [OF c "1.prems"(2)]) (use "1.prems"(3) in simp)
    finally show ?thesis .
  qed
qed

lemma tileRows_uniform:
  "tileRows grayscale width height blockSize contrastLimit by' result = Some r \<Longrightarrow>
   by' \<le> by \<Longrightarrow> blockSize dvd (by - by') \<Longrightarrow> blockSize dvd bx \<Longrightarrow>
   bx < width \<Longrightarrow> by < height \<Longrightarrow>
   length result = width * height \<Longrightarrow>
   \<forall>y < min blockSize (height - by). \<forall>x < min blockSize (width - bx).
      grayscale ! ((by + y) * width + (bx + x)) = c \<Longrightarrow>
   c \<le> 255 \<Longrightarrow> y < min blockSize (height - by) \<Longrightarrow> x < min blockSize (width - bx) \<Longrightarrow>
   r ! ((by + y) * width + (bx + x)) = c"
proof (induction grayscale width height blockSize contrastLimit by' result
       rule: tileRows.induct)
  case (1 grayscale width height blockSize contrastLimit by' result)
  from "1.prems"(2,6) have lt: "by' < height" by simp
  from "1.prems"(1) lt obtain r1
    where c: "tileColumns grayscale width height blockSize contrastLimit by' 0 result = Some r1"
      and bs: "blockSize \<noteq> 0"
      and rec: "tileRows grayscale width height blockSize contrastLimit (by' + blockSize) r1 = Some r"
    by (subst (asm) tileRows.simps) (auto split: option.splits if_splits)
  from tileColumns_returns [of blockSize grayscale width height contrastLimit by' 0 result] bs c
  have len: "length r1 = width * height" using "1.prems"(7) by simp
  from "1.prems"(11,5) have xw: "bx + x < width" by linarith
  show ?case
  proof (cases "by' = by")
    case True
    from "1.prems"(10) have "by + y < by + blockSize" by simp
    with True have "r ! ((by + y) * width + (bx + x)) = r1 ! ((by + y) * width + (bx + x))"
      using tileRows_other [OF rec xw, of "by + y"] by simp
    also have "\<dots> = c"
      by (rule tileColumns_uniform [OF c [unfolded True] _ _ "1.prems"(5,6,7,8,9,10,11)])
         (use "1.prems"(4) in simp_all)
    finally show ?thesis .
  next
    case False
    with "1.prems"(2) have "0 < by - by'" by simp
    with "1.prems"(3) have "blockSize \<le> by - by'" by (simp add: dvd_imp_le)
    with "1.prems"(2) have le: "by' + blockSize \<le> by" by linarith
    from dvd_diff_nat [OF "1.prems"(3) dvd_refl]
    have dv: "blockSize dvd (by - (by' + blockSize))"
      by (simp only: diff_diff_left)
    show ?thesis
      by (rule "1.IH" [OF lt c bs rec le dv "1.prems"(4,5,6) len "1.prems"(8,9,10,11)])
  qed
qed

text \<open>
  C10. Take a tile that \<open>applyAdaptiveContrast\<close> processes (its origin a multiple of
  \<open>blockSize\<close> in both directions, inside the image) whose luminances are all equal. Its
  minimum and maximum coincide, so the local contrast is 0 and the source divides by zero;
  all the same the call returns, with a buffer of the same length in which every pixel of
  that tile has the value it had.
\<close>

theorem adaptiveContrast_uniform_tile:
  "0 < blockSize \<Longrightarrow> length grayscale = width * height \<Longrightarrow> validBuffer grayscale \<Longrightarrow>
   blockSize dvd bx \<Longrightarrow> blockSize dvd by \<Longrightarrow> bx < width \<Longrightarrow> by < height \<Longrightarrow>
   \<forall>y < min blockSize (height - by). \<forall>x < min blockSize (width - bx).
      grayscale ! ((by + y) * width + (bx + x)) = c \<Longrightarrow>
   calculateBlockStats grayscale width bx by
       (min blockSize (width - bx)) (min blockSize (height - by))
     = (min blockSize (height - by) * min blockSize (width - bx) * c, c, c) \<and>
   (\<exists>r. applyAdaptiveContrast grayscale width height blockSize maxContrast isDetection = Some r
      \<and> length r = length grayscale
      \<and> (\<forall>y < min blockSize (height - by). \<forall>x < min blockSize (width - bx).
            r ! ((by + y) * width + (bx + x)) = grayscale ! ((by + y) * width + (bx + x))))"
proof -
  assume bs: "0 < blockSize" and len: "length grayscale = width * height"
    and valid: "validBuffer grayscale"
    and dx: "blockSize dvd bx" and dy: "blockSize dvd by"
    and bx: "bx < width" and "by": "by < height"
    and u: "\<forall>y < min blockSize (height - by). \<forall>x < min blockSize (width - bx).
              grayscale ! ((by + y) * width + (bx + x)) = c"
  let ?bw = "min blockSize (width - bx)" and ?bh = "min blockSize (height - by)"
  let ?cl = "if isDetection then 3 / 2 else maxContrast"
  from bs bx "by" have pos: "0 < ?bw" "0 < ?bh" by simp_all
  with u have c0: "grayscale ! (by * width + bx) = c" by force
  from pixel_index_bound [OF bx "by"] len have "by * width + bx < length grayscale" by simp
  with valid have "grayscale ! (by * width + bx) \<le> 255"
    by (simp add: validBuffer_def list_all_length)
  with c0 have c: "c \<le> 255" by simp
  from tileRows_returns [OF bs, of grayscale width height ?cl 0 grayscale]
  obtain r where r: "tileRows grayscale width height blockSize ?cl 0 grayscale = Some r"
    and lr: "length r = length grayscale" by blast
  have "r ! ((by + y) * width + (bx + x)) = grayscale ! ((by + y) * width + (bx + x))"
    if y: "y < ?bh" and x: "x < ?bw" for y x
  proof -
    have "r ! ((by + y) * width + (bx + x)) = c"
      by (rule tileRows_uniform [OF r _ _ dx bx "by" len u c y x]) (use dy in simp_all)
    with u y x show ?thesis by simp
  qed
  with r lr have "\<exists>r. applyAdaptiveContrast grayscale width height blockSize maxContrast isDetection
                     = Some r
      \<and> length r = length grayscale
      \<and> (\<forall>y < ?bh. \<forall>x < ?bw.
            r ! ((by + y) * width + (bx + x)) = grayscale ! ((by + y) * width + (bx + x)))"
    by (simp add: applyAdaptiveContrast_def)
  with calculateBlockStats_uniform [OF pos u c] show ?thesis by blast
qed

theorem adaptiveContrast_uniform_tile_witness:
  "(0 :: nat) < 2 \<and> length flatStartLuminance = 4 * 1 \<and> validBuffer flatStartLuminance
   \<and> (2 :: nat) dvd 0 \<and> (0 :: nat) < 4 \<and> (0 :: nat) < 1
   \<and> flatStartLuminance ! ((0 + 0) * 4 + (0 + 0)) = 7
   \<and> flatStartLuminance ! ((0 + 0) * 4 + (0 + 1)) = 7
   \<and> calculateBlockStats flatStartLuminance 4 0 0 2 1 = (14, 7, 7)
   \<and> applyAdaptiveContrast flatStartLuminance 4 1 2 2 False = Some [7, 7, 2, 4]"
proof -
  have l: "length flatStartLuminance = 4 * 1" "validBuffer flatStartLuminance"
    by (simp_all add: flatStartLuminance_def validBuffer_def)
  have u: "\<forall>y < min 2 (1 - 0). \<forall>x < min 2 (4 - 0).
             flatStartLuminance ! ((0 + y) * 4 + (0 + x)) = 7"
  proof (intro allI impI)
    fix y x :: nat
    assume "y < min 2 (1 - 0)" "x < min 2 (4 - 0)"
    then have "y = 0 \<and> (x = 0 \<or> x = 1)" by auto
    then show "flatStartLuminance ! ((0 + y) * 4 + (0 + x)) = 7"
      by (auto simp: flatStartLuminance_def)
  qed
  have e: "applyAdaptiveContrast flatStartLuminance 4 1 2 2 False = Some [7, 7, 2, 4]"
    by code_simp
  have n: "(0 :: nat) < 2" "(2 :: nat) dvd 0" "(0 :: nat) < 4" "(0 :: nat) < 1" by simp_all
  from adaptiveContrast_uniform_tile
         [OF n(1) l n(2) n(2) n(3) n(4) u, of 2 False]
  have "calculateBlockStats flatStartLuminance 4 0 0 2 1 = (14, 7, 7)" by simp
  moreover have "flatStartLuminance ! ((0 + 0) * 4 + (0 + 0)) = 7"
    "flatStartLuminance ! ((0 + 0) * 4 + (0 + 1)) = 7"
    by (simp_all add: flatStartLuminance_def)
  ultimately show ?thesis using n l e by blast
qed


end
